theory Spec2Isabelle
  imports Main "HOL-Library.Word"
begin

unbundle bit_operations_syntax

section \<open>The ATRAC9 voice module of the NGS audio engine\<close>

text \<open>
  A shallow embedding of \<^verbatim>\<open>vita3k/ngs/src/modules/atrac9.cpp\<close>. Machine
  integers are words of the width the C++ gives them, so \<open>+\<close>, \<open>-\<close> and \<open>*\<close> wrap
  around as \<^verbatim>\<open>std::uint32_t\<close> does; \<open>unat\<close> reads a word unsigned and \<open>sint\<close>
  reads it in two's complement.
\<close>

type_synonym u8 = "8 word"
type_synonym u16 = "16 word"
type_synonym u32 = "32 word"

subsection \<open>The packed stream-format word\<close>

text \<open>
  The result structure of \<^verbatim>\<open>get_buffer_parameter\<close>. Its declaration is in a
  header outside the translated file; every field holds the 32-bit value the
  function computes for it.
\<close>

record SkipBufferInfo =
  num_bytes :: u32
  is_super_packet :: u32
  start_byte_offset :: u32
  start_skip :: u32
  end_skip :: u32

definition sample_rate_index :: "u32 \<Rightarrow> u8" where
  "sample_rate_index info = ucast (drop_bit 12 (info AND push_bit 12 0b1111))"

definition block_rate_index :: "u32 \<Rightarrow> u8" where
  "block_rate_index info = ucast (drop_bit 9 (info AND push_bit 9 0b111))"

definition frame_bytes :: "u32 \<Rightarrow> u16" where
  "frame_bytes info =
     ucast ((push_bit 3 (drop_bit 16 (info AND 0xFF0000))
             OR drop_bit 29 (info AND push_bit 29 0b111)) + 1)"

definition superframe_index :: "u32 \<Rightarrow> u8" where
  "superframe_index info = ucast (drop_bit 27 (info AND push_bit 27 0b11))"

definition frame_per_superframe :: "u32 \<Rightarrow> u32" where
  "frame_per_superframe info = push_bit (unat (superframe_index info)) 1"

definition bytes_per_superframe :: "u32 \<Rightarrow> u32" where
  "bytes_per_superframe info = ucast (frame_bytes info) * frame_per_superframe info"

definition sample_rate_index_to_frame_sample_power :: "nat list" where
  "sample_rate_index_to_frame_sample_power =
     [6, 6, 7, 7, 7, 8, 8, 8, 6, 6, 7, 7, 7, 8, 8, 8]"

definition samples_per_frame :: "u32 \<Rightarrow> u32" where
  "samples_per_frame info =
     push_bit (sample_rate_index_to_frame_sample_power ! unat (sample_rate_index info)) 1"

definition samples_per_superframe :: "u32 \<Rightarrow> u32" where
  "samples_per_superframe info = samples_per_frame info * frame_per_superframe info"

definition start_superframe :: "u32 \<Rightarrow> u32 \<Rightarrow> u32" where
  "start_superframe start_sample info = start_sample div samples_per_superframe info"

definition num_superframe :: "u32 \<Rightarrow> u32 \<Rightarrow> u32 \<Rightarrow> u32" where
  "num_superframe start_sample num_samples info =
     (start_sample + num_samples + samples_per_superframe info - 1)
        div samples_per_superframe info
     - start_superframe start_sample info"

definition get_buffer_parameter :: "u32 \<Rightarrow> u32 \<Rightarrow> u32 \<Rightarrow> SkipBufferInfo" where
  "get_buffer_parameter start_sample num_samples info =
     \<lparr> num_bytes = num_superframe start_sample num_samples info * bytes_per_superframe info,
       is_super_packet = (if frame_per_superframe info = 1 then 0 else 1),
       start_byte_offset = start_superframe start_sample info * bytes_per_superframe info,
       start_skip = start_sample
          - start_superframe start_sample info * samples_per_superframe info,
       end_skip = (start_superframe start_sample info
                   + num_superframe start_sample num_samples info)
                  * samples_per_superframe info
          - (start_sample + num_samples) \<rparr>"

subsection \<open>Voice state, parameters and the decoder interface\<close>

text \<open>
  The structures \<^verbatim>\<open>State\<close>, \<^verbatim>\<open>BufferParameters\<close> and \<^verbatim>\<open>Parameters\<close> are
  declared in the module's header, which is not part of the translated file. Their
  integer fields are taken as 32-bit words. A field is read unsigned where the code
  mixes it with \<^verbatim>\<open>uint32_t\<close> locals (byte positions, byte counts, discard
  offsets, the two backlog counters) and in two's complement where the code compares
  it with \<open>-1\<close> (buffer indices, loop counts). The playback frequency and scalar of
  the parameter block only decide whether a warning is logged and are left out.
\<close>

record State =
  current_byte_position_in_buffer :: u32
  current_loop_count :: u32
  current_buffer :: u32
  samples_generated_since_key_on :: u32
  bytes_consumed_since_key_on :: u32
  samples_generated_total :: u32
  total_bytes_consumed :: u32
  decoded_samples_pending :: u32
  decoded_passed :: u32

record BufferParameters =
  buffer :: u32
  bytes_count :: u32
  loop_count :: u32
  next_buffer_index :: u32
  samples_discard_start_off :: u32
  samples_discard_end_off :: u32

record Parameters =
  buffer_params :: "BufferParameters list"
  config_data :: u32

text \<open>
  The voice states are an enumeration of the engine; this module only asks whether
  the voice is \<^verbatim>\<open>VOICE_STATE_AVAILABLE\<close>, so the other members are one
  constructor that carries the member's number.
\<close>

datatype VoiceState = VOICE_STATE_AVAILABLE | VOICE_STATE_OTHER nat

datatype CallbackReason =
  SCE_NGS_AT9_END_OF_DATA
  | SCE_NGS_AT9_SWAPPED_BUFFER
  | SCE_NGS_AT9_LOOPED_BUFFER
  | SCE_NGS_AT9_DECODE_ERROR

type_synonym Callback = "CallbackReason \<times> u32 \<times> u32"

text \<open>
  The part of the parent voice this module touches: its state, the key-off flag,
  the system's granularity (a signed 32-bit integer) and the data pointer of its
  first product. The pointer always points into \<^verbatim>\<open>extra_storage\<close>, so it is
  kept as an offset into it, counted in sample-frames.
\<close>

record Voice =
  voice_state :: VoiceState
  is_keyed_off :: bool
  granularity :: u32
  products0 :: "nat option"

text \<open>
  \<^verbatim>\<open>ModuleData\<close>: the voice's \<^verbatim>\<open>State\<close>, the byte vector
  \<^verbatim>\<open>extra_storage\<close> that holds the decoded backlog, and the callbacks handed
  to \<^verbatim>\<open>invoke_callback\<close>, in the order they were made. Every offset and size
  the code applies to \<^verbatim>\<open>extra_storage\<close> is a multiple of
  \<^verbatim>\<open>sizeof(float) * 2\<close>, one interleaved stereo sample-frame, so the vector is
  a list of sample-frames of an uninterpreted type \<open>'a\<close>. The two locks are
  released and taken again around each callback; they are not modelled.
\<close>

record 'a ModuleData =
  state :: State
  extra_storage :: "'a list"
  callbacks :: "Callback list"
  parent :: Voice

datatype DecoderQuery =
  CHANNELS
  | SAMPLE_RATE
  | AT9_SAMPLE_PER_FRAME
  | AT9_SAMPLE_PER_SUPERFRAME
  | AT9_FRAMES_IN_SUPERFRAME
  | AT9_SUPERFRAME_SIZE

text \<open>
  The decoder class \<^verbatim>\<open>Atrac9DecoderState\<close> and the sample converter are outside
  the translated file, so the decoder is a parameter: a record of its operations
  over an uninterpreted decoder state \<open>'d\<close>. \<open>send\<close> is given the guest address
  the input pointer stands for. \<open>receive\<close> stands for \<^verbatim>\<open>receive\<close> followed by
  \<^verbatim>\<open>swr_convert\<close>: it yields the frame's samples as stereo sample-frames, as
  many as \<^verbatim>\<open>decoder_size.samples\<close> says. \<open>silence\<close> is the sample-frame whose
  bytes are all zero.
\<close>

record ('d, 'a) Decoder =
  construct :: "u32 \<Rightarrow> 'd"
  get :: "'d \<Rightarrow> DecoderQuery \<Rightarrow> u32"
  send :: "'d \<Rightarrow> u32 \<Rightarrow> bool \<times> 'd"
  receive :: "'d \<Rightarrow> 'a list \<times> 'd"
  get_es_size :: "'d \<Rightarrow> u32"
  clear_context :: "'d \<Rightarrow> 'd"
  silence :: 'a

text \<open>The module object itself: the decoder, once built, and the last configuration.\<close>

record 'd Module =
  decoder :: "'d option"
  last_config :: u32

text \<open>
  What C++ leaves undefined is a fault of the model: an index outside the
  parameter array, a range outside a vector, a division by zero.
\<close>

datatype fault =
  BufferIndexOutOfRange
  | BacklogOutOfRange
  | ScratchOutOfRange
  | DivisionByZero

definition buffer_at :: "Parameters \<Rightarrow> u32 \<Rightarrow> fault + BufferParameters" where
  "buffer_at params i =
     (if 0 \<le> sint i \<and> nat (sint i) < length (buffer_params params)
      then Inr (buffer_params params ! nat (sint i))
      else Inl BufferIndexOutOfRange)"

subsection \<open>State changes of the voice\<close>

definition on_state_change :: "'a ModuleData \<Rightarrow> VoiceState \<Rightarrow> 'a ModuleData" where
  "on_state_change data previous =
     (if voice_state (parent data) = VOICE_STATE_AVAILABLE then
        data\<lparr>state := (state data)\<lparr>current_byte_position_in_buffer := 0,
                                    current_loop_count := 0,
                                    current_buffer := 0\<rparr>\<rparr>
      else if is_keyed_off (parent data) then
        data\<lparr>state := (state data)\<lparr>samples_generated_since_key_on := 0,
                                    bytes_consumed_since_key_on := 0\<rparr>\<rparr>
      else data)"

subsection \<open>One step of decoding\<close>

text \<open>Lines 89 to 92: drop the sample-frames the previous ticks have passed on.\<close>

definition compact :: "'a ModuleData \<Rightarrow> fault + 'a ModuleData" where
  "compact data =
     (if extra_storage data \<noteq> [] then
        (if unat (decoded_passed (state data)) \<le> length (extra_storage data) then
           Inr (data\<lparr>extra_storage :=
                        drop (unat (decoded_passed (state data))) (extra_storage data),
                     state := (state data)\<lparr>decoded_passed := 0\<rparr>\<rparr>)
         else Inl BacklogOutOfRange)
      else Inr data)"

text \<open>
  Lines 100 to 120: count the loop, stay on the buffer or move to the next one, and
  make the callbacks.
\<close>

definition switch_buffer ::
  "Parameters \<Rightarrow> BufferParameters \<Rightarrow> 'a ModuleData \<Rightarrow> fault + 'a ModuleData" where
  "switch_buffer params bufparam data =
     (let st = (state data)\<lparr>current_loop_count := current_loop_count (state data) + 1\<rparr> in
      if loop_count bufparam \<noteq> - 1
         \<and> sint (loop_count bufparam) < sint (current_loop_count st) then
        (let st' = st\<lparr>current_buffer := next_buffer_index bufparam,
                        current_loop_count := 0\<rparr> in
         if current_buffer st' = - 1 then
           Inr (data\<lparr>state := st',
                     callbacks := callbacks data @ [(SCE_NGS_AT9_END_OF_DATA, 0, 0)]\<rparr>)
         else
           (case buffer_at params (current_buffer st') of
              Inl e \<Rightarrow> Inl e
            | Inr b \<Rightarrow>
                Inr (data\<lparr>state := st',
                          callbacks := callbacks data
                            @ [(SCE_NGS_AT9_SWAPPED_BUFFER, current_loop_count st', buffer b)]\<rparr>)))
      else
        (case buffer_at params (current_buffer st) of
           Inl e \<Rightarrow> Inl e
         | Inr b \<Rightarrow>
             Inr (data\<lparr>state := st,
                       callbacks := callbacks data
                         @ [(SCE_NGS_AT9_SWAPPED_BUFFER, current_loop_count st, buffer b),
                            (SCE_NGS_AT9_LOOPED_BUFFER, current_loop_count st, buffer b)]\<rparr>)))"

text \<open>Lines 134 to 136: the loop over \<open>k\<close> that walks past empty buffers.\<close>

function skip_empty :: "Parameters \<Rightarrow> nat \<Rightarrow> u32 \<Rightarrow> fault + u32" where
  "skip_empty params k cur =
     (if k < 4 \<and> cur \<noteq> - 1 then
        (case buffer_at params cur of
           Inl e \<Rightarrow> Inl e
         | Inr b \<Rightarrow>
             if bytes_count b = 0 then skip_empty params (k + 1) (next_buffer_index b)
             else Inr cur)
      else Inr cur)"
  by pat_completeness auto
termination
  by (relation "measure (\<lambda>(params, k, cur). 4 - k)") auto

declare skip_empty.simps [simp del]

text \<open>Lines 125 to 144: after the switch, is there a buffer with data to go on with?\<close>

definition find_data :: "Parameters \<Rightarrow> 'a ModuleData \<Rightarrow> fault + bool \<times> 'a ModuleData" where
  "find_data params data =
     (let data' = data\<lparr>state := (state data)\<lparr>current_byte_position_in_buffer := 0\<rparr>\<rparr>;
          cur = current_buffer (state data') in
      if cur = - 1 then Inr (False, data')
      else
        (case buffer_at params cur of
           Inl e \<Rightarrow> Inl e
         | Inr b \<Rightarrow>
             if bytes_count b = 0 then
               (case skip_empty params 0 cur of
                  Inl e \<Rightarrow> Inl e
                | Inr cur' \<Rightarrow>
                    if cur' = - 1 then Inr (False, data')
                    else
                      (case buffer_at params cur' of
                         Inl e \<Rightarrow> Inl e
                       | Inr b' \<Rightarrow> Inr (bytes_count b' \<noteq> 0, data')))
             else Inr (True, data')))"

text \<open>
  Lines 163 to 181: the start offset and the size, in samples, of the part of the
  superframe that is kept. The decoder's answer \<^verbatim>\<open>samples_per_superframe\<close> is
  written with a prime here, the plain name being the format parser's. In the branch
  for the end of the buffer the code binds \<^verbatim>\<open>skipped_samples\<close> and then
  subtracts \<^verbatim>\<open>samples_discard_end_off\<close> itself; the binding is kept as it is.
\<close>

definition trim_superframe ::
  "BufferParameters \<Rightarrow> u32 \<Rightarrow> u32 \<Rightarrow> u32 \<Rightarrow> u32 \<Rightarrow> u32 \<times> u32" where
  "trim_superframe bufparam position superframe_size frame_bytes_gotten samples_per_superframe' =
     (let decoded_size = samples_per_superframe';
          decoded_start_offset = 0;
          sample_index = (position div superframe_size) * samples_per_superframe';
          (decoded_start_offset, decoded_size) =
            (if sample_index < samples_discard_start_off bufparam then
               (let skipped_samples =
                      min samples_per_superframe'
                          (samples_discard_start_off bufparam - sample_index)
                in (decoded_start_offset + skipped_samples, decoded_size - skipped_samples))
             else (decoded_start_offset, decoded_size));
          samples_left_after =
            (frame_bytes_gotten div superframe_size - 1) * samples_per_superframe';
          decoded_size =
            (if samples_left_after < samples_discard_end_off bufparam then
               (let skipped_samples =
                      min samples_per_superframe'
                          (samples_discard_end_off bufparam - samples_left_after)
                in decoded_size - samples_discard_end_off bufparam)
             else decoded_size)
      in (decoded_start_offset, decoded_size))"

text \<open>
  Two vector operations: \<^verbatim>\<open>std::vector::resize\<close>, which cuts the vector or
  fills it up with zero bytes, and a copy of \<open>src\<close> over the elements of \<open>dst\<close>
  from \<open>off\<close> on. The callers of \<open>write_at\<close> check that the range lies in \<open>dst\<close>.
\<close>

definition resize :: "nat \<Rightarrow> 'a \<Rightarrow> 'a list \<Rightarrow> 'a list" where
  "resize n z xs = take n xs @ replicate (n - length xs) z"

definition write_at :: "nat \<Rightarrow> 'a list \<Rightarrow> 'a list \<Rightarrow> 'a list" where
  "write_at off src dst = take off dst @ src @ drop (off + length src) dst"

text \<open>
  Lines 190 to 233: the loop over the frames of the superframe. It yields the
  error flag, the decoder, the byte position and the scratch vector
  \<^verbatim>\<open>decoded_superframe_samples\<close>. The converter writes past the scratch vector
  when the decoder hands out more samples than a superframe has.
\<close>

function decode_frames ::
  "('d, 'a) Decoder \<Rightarrow> nat \<Rightarrow> 'd \<Rightarrow> u32 \<Rightarrow> u32 \<Rightarrow> nat \<Rightarrow> 'a list
     \<Rightarrow> fault + bool \<times> 'd \<times> u32 \<times> 'a list" where
  "decode_frames dec frame d input position decoded_superframe_pos scratch =
     (if frame < unat (get dec d AT9_FRAMES_IN_SUPERFRAME) then
        (case send dec d input of
           (sent, d1) \<Rightarrow>
             if \<not> sent then Inr (True, d1, position, scratch)
             else
               (case receive dec d1 of
                  (samples, d2) \<Rightarrow>
                    if decoded_superframe_pos + length samples \<le> length scratch then
                      decode_frames dec (frame + 1) d2
                        (input + get_es_size dec d2)
                        (position + get_es_size dec d2)
                        (decoded_superframe_pos + length samples)
                        (write_at decoded_superframe_pos samples scratch)
                    else Inl ScratchOutOfRange))
      else Inr (False, d, position, scratch))"
  by pat_completeness auto
termination
proof (relation "measure (\<lambda>(dec, frame, d, input, position, pos, scratch). 2 ^ 32 - frame)",
       goal_cases)
  case 1
  show ?case by simp
next
  case (2 dec frame d input position pos scratch)
  have "unat (get dec d AT9_FRAMES_IN_SUPERFRAME) < 2 ^ 32"
    using unsigned_less [of "get dec d AT9_FRAMES_IN_SUPERFRAME"] by simp
  with 2(1) show ?case by simp
qed

declare decode_frames.simps [simp del]

text \<open>
  Lines 148 to 256: decode one superframe of the current buffer and append the kept
  part to the backlog.
\<close>

definition decode_superframe ::
  "('d, 'a) Decoder \<Rightarrow> BufferParameters \<Rightarrow> 'd \<Rightarrow> 'a ModuleData
     \<Rightarrow> fault + bool \<times> 'd \<times> 'a ModuleData" where
  "decode_superframe dec bufparam d data =
     (let st = state data;
          superframe_size = get dec d AT9_SUPERFRAME_SIZE;
          frame_bytes_gotten = bytes_count bufparam - current_byte_position_in_buffer st
      in
      if frame_bytes_gotten < superframe_size then Inr (False, d, data)
      else if superframe_size = 0 then Inl DivisionByZero
      else
        (let curr_pos = unat (decoded_samples_pending st);
             samples_per_superframe' = get dec d AT9_SAMPLE_PER_SUPERFRAME;
             (decoded_start_offset, decoded_size) =
               trim_superframe bufparam (current_byte_position_in_buffer st)
                 superframe_size frame_bytes_gotten samples_per_superframe';
             storage = resize (curr_pos + unat decoded_size) (silence dec) (extra_storage data);
             decoded_superframe_samples =
               replicate (unat (get dec d AT9_SAMPLE_PER_SUPERFRAME)) (silence dec)
         in
         case decode_frames dec 0 d
                (buffer bufparam + current_byte_position_in_buffer st)
                (current_byte_position_in_buffer st) 0 decoded_superframe_samples of
           Inl e \<Rightarrow> Inl e
         | Inr (got_decode_error, d1, position, decoded_superframe_samples) \<Rightarrow>
             if unat decoded_start_offset + unat decoded_size
                  \<le> length decoded_superframe_samples then
               Inr (True,
                    (if got_decode_error then clear_context dec d1 else d1),
                    data\<lparr>extra_storage :=
                           write_at curr_pos
                             (take (unat decoded_size)
                                (drop (unat decoded_start_offset) decoded_superframe_samples))
                             storage,
                         callbacks :=
                           (if got_decode_error then
                              callbacks data
                                @ [(SCE_NGS_AT9_DECODE_ERROR, position, buffer bufparam)]
                            else callbacks data),
                         state := st\<lparr>
                           current_byte_position_in_buffer := position,
                           samples_generated_since_key_on :=
                             samples_generated_since_key_on st + decoded_size,
                           samples_generated_total := samples_generated_total st + decoded_size,
                           bytes_consumed_since_key_on :=
                             bytes_consumed_since_key_on st + superframe_size,
                           total_bytes_consumed := total_bytes_consumed st + superframe_size,
                           decoded_samples_pending :=
                             decoded_samples_pending st + decoded_size\<rparr>\<rparr>)
             else Inl ScratchOutOfRange))"

definition decode_more_data ::
  "('d, 'a) Decoder \<Rightarrow> Parameters \<Rightarrow> 'd \<Rightarrow> 'a ModuleData
     \<Rightarrow> fault + bool \<times> 'd \<times> 'a ModuleData" where
  "decode_more_data dec params d data =
     (case buffer_at params (current_buffer (state data)) of
        Inl e \<Rightarrow> Inl e
      | Inr bufparam \<Rightarrow>
          (case compact data of
             Inl e \<Rightarrow> Inl e
           | Inr data1 \<Rightarrow>
               if bytes_count bufparam \<le> current_byte_position_in_buffer (state data1) then
                 (case switch_buffer params bufparam data1 of
                    Inl e \<Rightarrow> Inl e
                  | Inr data2 \<Rightarrow>
                      (case find_data params data2 of
                         Inl e \<Rightarrow> Inl e
                       | Inr (again, data3) \<Rightarrow> Inr (again, d, data3)))
               else decode_superframe dec bufparam d data1))"

subsection \<open>One tick\<close>

text \<open>
  Modelled from the spec: \<^verbatim>\<open>ModuleData::fill_to_fit_granularity\<close> is defined
  outside the translated file. The specification has it pad the backlog with silence
  up to \<open>granularity\<close> samples; a backlog that is already that long is left alone.
\<close>

definition fill_to_fit_granularity :: "'a \<Rightarrow> 'a ModuleData \<Rightarrow> 'a ModuleData" where
  "fill_to_fit_granularity z data =
     data\<lparr>extra_storage :=
            extra_storage data
              @ replicate (nat (sint (granularity (parent data))) - length (extra_storage data)) z\<rparr>"

text \<open>
  Lines 276 to 286: the loop of \<^verbatim>\<open>process\<close>. It need not end, so it is a partial
  function: \<open>None\<close> is the loop that runs forever. The flag of the result is what
  \<^verbatim>\<open>process\<close> returns when it leaves from inside the loop.
\<close>

definition finish :: "'a \<Rightarrow> 'a ModuleData \<Rightarrow> 'a ModuleData" where
  "finish z data =
     (let data' = fill_to_fit_granularity z data in
      data'\<lparr>parent := (parent data')\<lparr>products0 := Some 0\<rparr>,
            state := (state data')\<lparr>samples_generated_since_key_on := 0,
                                    bytes_consumed_since_key_on := 0\<rparr>\<rparr>)"

partial_function (option) decode_loop ::
  "('d, 'a) Decoder \<Rightarrow> Parameters \<Rightarrow> 'd \<Rightarrow> 'a ModuleData
     \<Rightarrow> (fault + bool \<times> 'd \<times> 'a ModuleData) option" where
  "decode_loop dec params d data =
     (if sint (decoded_samples_pending (state data)) < sint (granularity (parent data)) then
        (case decode_more_data dec params d data of
           Inl e \<Rightarrow> Some (Inl e)
         | Inr (again, d1, data1) \<Rightarrow>
             if \<not> again then Some (Inr (True, d1, finish (silence dec) data1))
             else decode_loop dec params d1 data1)
      else Some (Inr (False, d, data)))"

declare decode_loop.simps [code]

text \<open>Lines 288 to 296: hand \<open>granularity\<close> sample-frames of the backlog to the mixer.\<close>

definition publish :: "'a ModuleData \<Rightarrow> 'a ModuleData" where
  "publish data =
     (let st = state data;
          samples_to_be_passed = granularity (parent data)
      in data\<lparr>parent := (parent data)\<lparr>products0 := Some (unat (decoded_passed st))\<rparr>,
              state := st\<lparr>
                decoded_samples_pending :=
                  (if decoded_samples_pending st < samples_to_be_passed then 0
                   else decoded_samples_pending st - samples_to_be_passed),
                decoded_passed := decoded_passed st + samples_to_be_passed\<rparr>\<rparr>)"

definition process ::
  "('d, 'a) Decoder \<Rightarrow> Parameters \<Rightarrow> 'd Module \<Rightarrow> 'a ModuleData
     \<Rightarrow> (fault + bool \<times> 'd Module \<times> 'a ModuleData) option" where
  "process dec params m data =
     (if current_buffer (state data) = - 1 then Some (Inr (True, m, data))
      else
        (case buffer_at params (current_buffer (state data)) of
           Inl e \<Rightarrow> Some (Inl e)
         | Inr b \<Rightarrow>
             if buffer b = 0 then Some (Inr (True, m, data))
             else
               (let fresh = (decoder m = None \<or> config_data params \<noteq> last_config m);
                    d = (case decoder m of
                           None \<Rightarrow> construct dec (config_data params)
                         | Some d0 \<Rightarrow>
                             if fresh then construct dec (config_data params) else d0);
                    last = (if fresh then config_data params else last_config m)
                in
                case decode_loop dec params d data of
                  None \<Rightarrow> None
                | Some (Inl e) \<Rightarrow> Some (Inl e)
                | Some (Inr (finished, d1, data1)) \<Rightarrow>
                    Some (Inr (finished,
                               \<lparr>decoder = Some d1, last_config = last\<rparr>,
                               (if finished then data1 else publish data1))))))"

text \<open>
  What the mixer reads after a tick: \<open>granularity\<close> sample-frames from the data
  pointer of the first product.
\<close>

definition published :: "'a ModuleData \<Rightarrow> 'a list" where
  "published data =
     (case products0 (parent data) of
        None \<Rightarrow> []
      | Some off \<Rightarrow> take (unat (granularity (parent data))) (drop off (extra_storage data)))"

subsection \<open>A decoder to run the model on\<close>

text \<open>
  A decoder for concrete runs. Its state counts the frames sent so far, and the
  send number \<open>fail_at\<close> fails (none when \<open>fail_at = 0\<close>). A superframe has two
  frames of four bytes and two samples each; a decoded sample-frame is the number
  of the send that produced it, and silence is \<open>0\<close>.
\<close>

definition stub_decoder :: "nat \<Rightarrow> (nat, nat) Decoder" where
  "stub_decoder fail_at =
     \<lparr> construct = (\<lambda>config. 0),
       get = (\<lambda>d query. case query of
                CHANNELS \<Rightarrow> 2
              | SAMPLE_RATE \<Rightarrow> 48000
              | AT9_SAMPLE_PER_FRAME \<Rightarrow> 2
              | AT9_SAMPLE_PER_SUPERFRAME \<Rightarrow> 4
              | AT9_FRAMES_IN_SUPERFRAME \<Rightarrow> 2
              | AT9_SUPERFRAME_SIZE \<Rightarrow> 8),
       send = (\<lambda>d input. (Suc d \<noteq> fail_at, Suc d)),
       receive = (\<lambda>d. ([d, d], d)),
       get_es_size = (\<lambda>d. 4),
       clear_context = (\<lambda>d. d),
       silence = 0 \<rparr>"

definition initial_state :: State where
  "initial_state =
     \<lparr> current_byte_position_in_buffer = 0, current_loop_count = 0, current_buffer = 0,
       samples_generated_since_key_on = 0, bytes_consumed_since_key_on = 0,
       samples_generated_total = 0, total_bytes_consumed = 0,
       decoded_samples_pending = 0, decoded_passed = 0 \<rparr>"

definition initial_data :: "u32 \<Rightarrow> 'a ModuleData" where
  "initial_data g =
     \<lparr> state = initial_state, extra_storage = [], callbacks = [],
       parent = \<lparr> voice_state = VOICE_STATE_OTHER 1, is_keyed_off = False,
                  granularity = g, products0 = None \<rparr> \<rparr>"

subsection \<open>Concrete inputs\<close>

text \<open>
  Inputs for concrete runs: a buffer without discards, a voice on buffer 0 at a given
  byte position and loop iteration (granularity \<open>g\<close>, empty backlog), a parameter
  block whose buffer 0 loops twice before buffer 1, and one whose buffer 0 is
  followed by two empty buffers and a full one.
\<close>

definition example_buffer :: "u32 \<Rightarrow> u32 \<Rightarrow> u32 \<Rightarrow> u32 \<Rightarrow> BufferParameters" where
  "example_buffer address bytes loops next =
     \<lparr> buffer = address, bytes_count = bytes, loop_count = loops, next_buffer_index = next,
       samples_discard_start_off = 0, samples_discard_end_off = 0 \<rparr>"

definition voice_at :: "u32 \<Rightarrow> u32 \<Rightarrow> u32 \<Rightarrow> nat ModuleData" where
  "voice_at g position loops =
     (initial_data g)\<lparr>state := initial_state\<lparr>current_byte_position_in_buffer := position,
                                              current_loop_count := loops\<rparr>\<rparr>"

definition looping_params :: Parameters where
  "looping_params =
     \<lparr> buffer_params = [example_buffer 0x1000 8 2 1, example_buffer 0x2000 16 0 (- 1)],
       config_data = 7 \<rparr>"

definition chain_params :: Parameters where
  "chain_params =
     \<lparr> buffer_params = [example_buffer 0x1000 8 0 1, example_buffer 0x2000 0 0 2,
                        example_buffer 0x3000 0 0 3, example_buffer 0x4000 16 0 (- 1)],
       config_data = 7 \<rparr>"

definition single_params :: Parameters where
  "single_params =
     \<lparr> buffer_params = [example_buffer 0x1000 16 0 (- 1)], config_data = 7 \<rparr>"

text \<open>
  A voice in the middle of playing, no field of its state zero: on buffer 1 at byte
  8 in loop iteration 2, with seven sample-frames in the backlog.
\<close>

definition busy_voice :: "VoiceState \<Rightarrow> bool \<Rightarrow> nat ModuleData" where
  "busy_voice vs keyed =
     \<lparr> state = \<lparr> current_byte_position_in_buffer = 8, current_loop_count = 2,
                 current_buffer = 1, samples_generated_since_key_on = 5,
                 bytes_consumed_since_key_on = 7, samples_generated_total = 9,
                 total_bytes_consumed = 11, decoded_samples_pending = 3,
                 decoded_passed = 4 \<rparr>,
       extra_storage = [1, 2, 3, 4, 5, 6, 7],
       callbacks = [],
       parent = \<lparr> voice_state = vs, is_keyed_off = keyed, granularity = 4,
                  products0 = None \<rparr> \<rparr>"

text \<open>
  The voice \<open>initial_data g\<close> after the two superframes of the buffer of
  \<open>single_params\<close> are decoded with \<open>stub_decoder 0\<close>.
\<close>

definition decoded_voice :: "u32 \<Rightarrow> nat ModuleData" where
  "decoded_voice g =
     \<lparr> state = \<lparr> current_byte_position_in_buffer = 16, current_loop_count = 0,
                 current_buffer = 0, samples_generated_since_key_on = 8,
                 bytes_consumed_since_key_on = 16, samples_generated_total = 8,
                 total_bytes_consumed = 16, decoded_samples_pending = 8,
                 decoded_passed = 0 \<rparr>,
       extra_storage = [1, 1, 2, 2, 3, 3, 4, 4],
       callbacks = [],
       parent = \<lparr> voice_state = VOICE_STATE_OTHER 1, is_keyed_off = False,
                  granularity = g, products0 = None \<rparr> \<rparr>"

subsection \<open>Notions the properties are stated with\<close>

text \<open>
  The buffer index reached from \<open>cur\<close> after \<open>k\<close> hops along
  \<^verbatim>\<open>next_buffer_index\<close>.
\<close>

fun hop_chain :: "Parameters \<Rightarrow> nat \<Rightarrow> u32 \<Rightarrow> fault + u32" where
  "hop_chain params 0 cur = Inr cur"
| "hop_chain params (Suc k) cur =
     (case buffer_at params cur of
        Inl e \<Rightarrow> Inl e
      | Inr b \<Rightarrow> hop_chain params k (next_buffer_index b))"

text \<open>
  The first \<open>k\<close> frames of a superframe, from frame number \<open>frame\<close> on, sent
  and received one after the other with no submission failing: the sample-frames
  they give, the decoder after them and the bytes they take. \<open>None\<close> when a
  submission fails or the superframe has no such frame.
\<close>

fun decoded_prefix ::
  "('d, 'a) Decoder \<Rightarrow> nat \<Rightarrow> nat \<Rightarrow> 'd \<Rightarrow> u32 \<Rightarrow> ('a list \<times> 'd \<times> u32) option" where
  "decoded_prefix dec 0 frame d input = Some ([], d, 0)"
| "decoded_prefix dec (Suc k) frame d input =
     (if frame < unat (get dec d AT9_FRAMES_IN_SUPERFRAME) then
        (case send dec d input of
           (sent, d1) \<Rightarrow>
             if sent then
               (case receive dec d1 of
                  (samples, d2) \<Rightarrow>
                    (case decoded_prefix dec k (frame + 1) d2 (input + get_es_size dec d2) of
                       None \<Rightarrow> None
                     | Some (rest, d', bytes) \<Rightarrow>
                         Some (samples @ rest, d', get_es_size dec d2 + bytes)))
             else None)
      else None)"

text \<open>A buffer index that is not terminal and whose buffer holds no bytes.\<close>

definition empty_slot :: "Parameters \<Rightarrow> u32 \<Rightarrow> bool" where
  "empty_slot params cur \<longleftrightarrow>
     cur \<noteq> - 1 \<and> (case buffer_at params cur of Inl e \<Rightarrow> False | Inr b \<Rightarrow> bytes_count b = 0)"

text \<open>A buffer index that is not terminal and whose buffer holds bytes.\<close>

definition data_slot :: "Parameters \<Rightarrow> u32 \<Rightarrow> bool" where
  "data_slot params cur \<longleftrightarrow>
     cur \<noteq> - 1 \<and> (case buffer_at params cur of Inl e \<Rightarrow> False | Inr b \<Rightarrow> bytes_count b \<noteq> 0)"

text \<open>
  The state of the backlog between two calls: the two counters together stay below
  \<open>2 ^ 31\<close>, and the backlog holds either exactly the pending and the passed
  sample-frames, or, after a tick that ran out of data, the pending ones filled up
  with silence to \<open>granularity\<close> sample-frames.
\<close>

definition backlog_ok :: "'a \<Rightarrow> 'a ModuleData \<Rightarrow> bool" where
  "backlog_ok z data \<longleftrightarrow>
     unat (decoded_samples_pending (state data)) + unat (decoded_passed (state data)) < 2 ^ 31
     \<and> (length (extra_storage data)
          = unat (decoded_samples_pending (state data)) + unat (decoded_passed (state data))
        \<or> decoded_passed (state data) = 0
          \<and> unat (decoded_samples_pending (state data)) < unat (granularity (parent data))
          \<and> length (extra_storage data) = unat (granularity (parent data))
          \<and> drop (unat (decoded_samples_pending (state data))) (extra_storage data)
              = replicate (unat (granularity (parent data))
                            - unat (decoded_samples_pending (state data))) z)"

text \<open>
  Sizes in the range of the engine: the granularity is not negative, and together
  with the samples of a superframe it stays within \<open>2 ^ 31\<close>.
\<close>

definition sizes_ok :: "('d, 'a) Decoder \<Rightarrow> u32 \<Rightarrow> bool" where
  "sizes_ok dec g \<longleftrightarrow>
     0 \<le> sint g \<and> (\<forall>d. unat g + unat (get dec d AT9_SAMPLE_PER_SUPERFRAME) \<le> 2 ^ 31)"

text \<open>
  What holds when the loop of a tick is left: with the flag up, after a step that
  reported no data; with the flag down, because enough sample-frames are pending.
\<close>

definition loop_left :: "'a \<Rightarrow> 'a ModuleData \<Rightarrow> bool \<Rightarrow> 'a ModuleData \<Rightarrow> bool" where
  "loop_left z data finished data1 \<longleftrightarrow>
     backlog_ok z data1
     \<and> granularity (parent data1) = granularity (parent data)
     \<and> (finished \<longrightarrow>
           products0 (parent data1) = Some 0
         \<and> decoded_passed (state data1) = 0
         \<and> samples_generated_since_key_on (state data1) = 0
         \<and> bytes_consumed_since_key_on (state data1) = 0
         \<and> unat (decoded_samples_pending (state data1)) < unat (granularity (parent data))
         \<and> length (extra_storage data1) = unat (granularity (parent data))
         \<and> drop (unat (decoded_samples_pending (state data1))) (extra_storage data1)
             = replicate (unat (granularity (parent data))
                           - unat (decoded_samples_pending (state data1))) z)
     \<and> (\<not> finished \<longrightarrow>
           \<not> sint (decoded_samples_pending (state data1)) < sint (granularity (parent data1)))"

text \<open>
  The decoder a tick works with, lines 268 to 274: the module's own, or a new one
  when there is none yet or the configuration has changed.
\<close>

definition tick_decoder :: "('d, 'a) Decoder \<Rightarrow> Parameters \<Rightarrow> 'd Module \<Rightarrow> 'd" where
  "tick_decoder dec params m =
     (case decoder m of
        None \<Rightarrow> construct dec (config_data params)
      | Some d0 \<Rightarrow>
          if config_data params \<noteq> last_config m then construct dec (config_data params)
          else d0)"

text \<open>
  \<open>n\<close> rounds of the loop of a tick, each entered with fewer than \<open>granularity\<close>
  sample-frames pending and each with a decode step that reports more data: the
  decoder and the voice after them. \<open>None\<close> when the loop does not make \<open>n\<close>
  such rounds.
\<close>

fun loop_rounds ::
  "('d, 'a) Decoder \<Rightarrow> Parameters \<Rightarrow> nat \<Rightarrow> 'd \<Rightarrow> 'a ModuleData \<Rightarrow> ('d \<times> 'a ModuleData) option" where
  "loop_rounds dec params 0 d data = Some (d, data)"
| "loop_rounds dec params (Suc n) d data =
     (if sint (decoded_samples_pending (state data)) < sint (granularity (parent data)) then
        (case decode_more_data dec params d data of
           Inl e \<Rightarrow> None
         | Inr (again, d1, data1) \<Rightarrow>
             if again then loop_rounds dec params n d1 data1 else None)
      else None)"

text \<open>
  The two ways the claim names for the data to run out at a decode step: the
  buffer's bytes are used up, its loops are played and no buffer follows; or the
  bytes left in the buffer are fewer than a superframe.
\<close>

definition terminal_buffer :: "BufferParameters \<Rightarrow> 'a ModuleData \<Rightarrow> bool" where
  "terminal_buffer b data \<longleftrightarrow>
     bytes_count b \<le> current_byte_position_in_buffer (state data)
     \<and> loop_count b \<noteq> - 1
     \<and> sint (loop_count b) < sint (current_loop_count (state data) + 1)
     \<and> next_buffer_index b = - 1"

definition short_buffer :: "('d, 'a) Decoder \<Rightarrow> 'd \<Rightarrow> BufferParameters \<Rightarrow> 'a ModuleData \<Rightarrow> bool" where
  "short_buffer dec d b data \<longleftrightarrow>
     current_byte_position_in_buffer (state data) < bytes_count b
     \<and> bytes_count b - current_byte_position_in_buffer (state data)
         < get dec d AT9_SUPERFRAME_SIZE"

text \<open>
  The states a voice can be in after any sequence of ticks, with any parameters, and
  of state changes, from a fresh module (no decoder, last configuration 0) and a
  zeroed state with an empty backlog.
\<close>

inductive reachable :: "('d, 'a) Decoder \<Rightarrow> u32 \<Rightarrow> 'd Module \<Rightarrow> 'a ModuleData \<Rightarrow> bool"
  for dec :: "('d, 'a) Decoder" and g :: u32 where
  fresh: "reachable dec g \<lparr>decoder = None, last_config = 0\<rparr> (initial_data g)"
| tick: "reachable dec g m data
         \<Longrightarrow> process dec params m data = Some (Inr (finished, m', data'))
         \<Longrightarrow> reachable dec g m' data'"
| change: "reachable dec g m data
           \<Longrightarrow> reachable dec g m
                 (on_state_change
                    (data\<lparr>parent := (parent data)\<lparr>voice_state := vs, is_keyed_off := k\<rparr>\<rparr>)
                    previous)"

section \<open>Properties\<close>

subsection \<open>The format word\<close>

lemma slice_mask:
  fixes w :: u32
  shows "drop_bit n (w AND push_bit n (mask k)) = take_bit k (drop_bit n w)"
  by (rule bit_word_eqI) (auto simp add: bit_simps dest: bit_imp_le_length)

lemma mask_consts:
  "(push_bit 12 0b1111 :: u32) = push_bit 12 (mask 4)"
  "(push_bit 9 0b111 :: u32) = push_bit 9 (mask 3)"
  "(push_bit 27 0b11 :: u32) = push_bit 27 (mask 2)"
  "(push_bit 29 0b111 :: u32) = push_bit 29 (mask 3)"
  "(0xFF0000 :: u32) = push_bit 16 (mask 8)"
  by (simp_all add: mask_eq_exp_minus_1)

lemma field_nat:
  fixes info :: u32
  shows "unat (take_bit k (drop_bit n info)) = unat info div 2 ^ n mod 2 ^ k"
  by (simp add: unsigned_take_bit_eq unat_drop_bit_eq take_bit_nat_def drop_bit_nat_def)

lemma unat_sample_rate_index:
  "unat (sample_rate_index info) = unat info div 2 ^ 12 mod 2 ^ 4"
  unfolding sample_rate_index_def mask_consts slice_mask
  by (simp add: unsigned_ucast_eq field_nat take_bit_nat_def mod_mod_cancel)


lemma unat_superframe_index:
  "unat (superframe_index info) = unat info div 2 ^ 27 mod 2 ^ 2"
  unfolding superframe_index_def mask_consts slice_mask
  by (simp add: unsigned_ucast_eq field_nat take_bit_nat_def mod_mod_cancel)




lemma superframe_index_cases: "unat (superframe_index info) \<in> {0, 1, 2, 3}"
proof -
  have "unat (superframe_index info) < 4" by (simp add: unat_superframe_index)
  then show ?thesis by auto
qed

lemma frame_per_superframe_cases: "frame_per_superframe info \<in> {1, 2, 4, 8}"
  using superframe_index_cases [of info] unfolding frame_per_superframe_def by auto


lemma frame_sample_power_cases:
  "i < 16 \<Longrightarrow> sample_rate_index_to_frame_sample_power ! i \<in> {6, 7, 8}"
  unfolding sample_rate_index_to_frame_sample_power_def
  by (auto simp: less_Suc_eq numeral_eq_Suc)

lemma sample_power_cases:
  "sample_rate_index_to_frame_sample_power ! unat (sample_rate_index info) \<in> {6, 7, 8}"
  by (rule frame_sample_power_cases) (simp add: unat_sample_rate_index)


lemma unat_samples_per_superframe:
  "unat (samples_per_superframe info)
     = unat (samples_per_frame info) * unat (frame_per_superframe info)"
proof -
  have a: "unat (samples_per_frame info) \<le> 256"
    using sample_power_cases [of info] unfolding samples_per_frame_def by auto
  have b: "unat (frame_per_superframe info) \<le> 8"
    using frame_per_superframe_cases [of info] by auto
  have "unat (samples_per_frame info) * unat (frame_per_superframe info) \<le> 256 * 8"
    using a b by (rule mult_le_mono)
  then show ?thesis
    unfolding samples_per_superframe_def by (simp add: unat_word_ariths)
qed

lemma samples_per_superframe_pos: "0 < unat (samples_per_superframe info)"
proof -
  have "0 < unat (samples_per_frame info)"
    using sample_power_cases [of info] unfolding samples_per_frame_def by auto
  moreover have "0 < unat (frame_per_superframe info)"
    using frame_per_superframe_cases [of info] by auto
  ultimately show ?thesis by (simp add: unat_samples_per_superframe)
qed


text \<open>
  The arithmetic of the sample window, for a window that does not wrap around:
  \<open>f\<close> is the first superframe and \<open>q\<close> the one after the last.
\<close>

lemma window_nat:
  fixes a n S :: u32
  assumes S: "0 < unat S" and fit: "unat a + unat n + unat S \<le> 2 ^ 32"
  defines "q \<equiv> (a + n + S - 1) div S"
  defines "f \<equiv> a div S"
  shows "unat f = unat a div unat S"
    and "unat (q - f) = (unat a + unat n + unat S - 1) div unat S - unat a div unat S"
    and "unat (a - f * S) = unat a mod unat S"
    and "unat ((f + (q - f)) * S - (a + n))
           = (unat a + unat n + unat S - 1) div unat S * unat S - (unat a + unat n)"
    and "unat a + unat n \<le> (unat a + unat n + unat S - 1) div unat S * unat S"
    and "unat ((f + (q - f)) * S) = (unat a + unat n + unat S - 1) div unat S * unat S"
    and "unat (a + n) = unat a + unat n"
proof -
  let ?A = "unat a" and ?N = "unat n" and ?S = "unat S"
  let ?M = "?A + ?N + ?S - 1"
  let ?Q = "?M div ?S"
  have M: "?M < 2 ^ 32" using fit S by simp
  show f: "unat f = ?A div ?S" by (simp add: f_def unat_div)
  show an: "unat (a + n) = ?A + ?N" using fit S by (simp add: unat_word_ariths)
  have "a + n + S - 1 = word_of_nat ?M"
    using S by simp
  then have m: "unat (a + n + S - 1) = ?M"
    using M by (simp add: unat_of_nat)
  have q: "unat q = ?Q" by (simp add: q_def unat_div m)
  have fq: "f \<le> q"
    unfolding word_le_nat_alt f q using S by (intro div_le_mono) linarith
  show "unat (q - f) = ?Q - ?A div ?S"
    using fq by (simp add: unat_sub f q)
  have "?A div ?S * ?S \<le> ?A" by simp
  moreover have "?A < 2 ^ 32" using unsigned_less [of a] by simp
  ultimately have "?A div ?S * ?S < 2 ^ 32" by linarith
  then have fS: "unat (f * S) = ?A div ?S * ?S"
    by (simp add: unat_word_ariths f)
  then have "f * S \<le> a" by (simp add: word_le_nat_alt)
  then have "unat (a - f * S) = ?A - ?A div ?S * ?S"
    by (simp add: unat_sub fS)
  then show "unat (a - f * S) = ?A mod ?S"
    by (simp add: minus_div_mult_eq_mod)
  have "?Q * ?S \<le> ?M" by simp
  then have "?Q * ?S < 2 ^ 32" using M by linarith
  then have qS: "unat (q * S) = ?Q * ?S"
    by (simp add: unat_word_ariths q)
  have e: "f + (q - f) = q" by simp
  show "unat ((f + (q - f)) * S) = ?Q * ?S" unfolding e by (rule qS)
  have "?M mod ?S < ?S" using S by simp
  moreover have "?M = ?Q * ?S + ?M mod ?S" by simp
  ultimately show ceil: "?A + ?N \<le> ?Q * ?S" using S by linarith
  then have "a + n \<le> q * S" by (simp add: word_le_nat_alt an qS)
  then show "unat ((f + (q - f)) * S - (a + n)) = ?Q * ?S - (?A + ?N)"
    unfolding e by (simp add: unat_sub an qS)
qed


lemmas format_defs = sample_rate_index_def block_rate_index_def frame_bytes_def
  superframe_index_def frame_per_superframe_def bytes_per_superframe_def
  sample_rate_index_to_frame_sample_power_def samples_per_frame_def
  samples_per_superframe_def start_superframe_def num_superframe_def get_buffer_parameter_def

lemma samples_per_superframe_example: "samples_per_superframe 0x08123456 = 256"
  by (simp add: format_defs)



text \<open>
  C10, as the code has it. When the sum
  \<open>start_sample + num_samples + samples_per_superframe - 1\<close> fits 32 bits, the
  start skip, the requested samples and the end skip add up to the samples of the
  superframes counted, the start skip is less than a superframe, and the
  subtraction that gives the end skip does not go below zero.
\<close>

theorem skip_accounting:
  assumes "unat start_sample + unat num_samples + unat (samples_per_superframe info) \<le> 2 ^ 32"
  shows "unat (start_skip (get_buffer_parameter start_sample num_samples info))
           + unat num_samples
           + unat (end_skip (get_buffer_parameter start_sample num_samples info))
         = unat (num_superframe start_sample num_samples info)
             * unat (samples_per_superframe info)
       \<and> unat (start_skip (get_buffer_parameter start_sample num_samples info))
           < unat (samples_per_superframe info)
       \<and> unat (start_sample + num_samples)
           \<le> unat ((start_superframe start_sample info
                      + num_superframe start_sample num_samples info)
                     * samples_per_superframe info)"
proof -
  let ?A = "unat start_sample" and ?N = "unat num_samples"
    and ?S = "unat (samples_per_superframe info)"
  let ?Q = "(?A + ?N + ?S - 1) div ?S"
  note w = window_nat [OF samples_per_superframe_pos assms]
  have S: "0 < ?S" by (rule samples_per_superframe_pos)
  have skip: "unat (start_skip (get_buffer_parameter start_sample num_samples info)) = ?A mod ?S"
    unfolding get_buffer_parameter_def start_superframe_def using w(3) by simp
  have rest: "unat (end_skip (get_buffer_parameter start_sample num_samples info))
                = ?Q * ?S - (?A + ?N)"
    unfolding get_buffer_parameter_def start_superframe_def num_superframe_def
    using w(4) by simp
  have count: "unat (num_superframe start_sample num_samples info) = ?Q - ?A div ?S"
    unfolding start_superframe_def num_superframe_def by (rule w(2))
  have split: "?A = ?A div ?S * ?S + ?A mod ?S" by simp
  have "(?Q - ?A div ?S) * ?S = ?Q * ?S - ?A div ?S * ?S"
    by (rule diff_mult_distrib)
  with w(5) split have "?A mod ?S + ?N + (?Q * ?S - (?A + ?N)) = (?Q - ?A div ?S) * ?S"
    by linarith
  then have identity: "unat (start_skip (get_buffer_parameter start_sample num_samples info))
           + unat num_samples
           + unat (end_skip (get_buffer_parameter start_sample num_samples info))
         = unat (num_superframe start_sample num_samples info) * ?S"
    by (simp only: skip rest count)
  have less: "unat (start_skip (get_buffer_parameter start_sample num_samples info)) < ?S"
    unfolding skip using S by simp
  have "unat (start_sample + num_samples)
           \<le> unat ((start_superframe start_sample info
                      + num_superframe start_sample num_samples info)
                     * samples_per_superframe info)"
    unfolding start_superframe_def num_superframe_def w(6) w(7) by (rule w(5))
  with identity less show ?thesis by blast
qed

theorem skip_accounting_witness:
  "unat (100 :: u32) + unat (1000 :: u32) + unat (samples_per_superframe 0x08123456) \<le> 2 ^ 32
   \<and> unat (start_skip (get_buffer_parameter 100 1000 0x08123456))
           + unat (1000 :: u32)
           + unat (end_skip (get_buffer_parameter 100 1000 0x08123456))
         = unat (num_superframe 100 1000 0x08123456)
             * unat (samples_per_superframe 0x08123456)"
proof -
  have h: "unat (100 :: u32) + unat (1000 :: u32) + unat (samples_per_superframe 0x08123456)
             \<le> 2 ^ 32"
    by (simp add: samples_per_superframe_example)
  show ?thesis
    using h skip_accounting [OF h] by blast
qed

text \<open>
  C10 as stated, for every call, fails. For a window of \<open>2 ^ 32 - 1\<close> samples from
  sample 0 and the format word 0 a superframe has 64 samples, the function counts no
  superframe, and the end skip is \<open>0 - (2 ^ 32 - 1)\<close>, which wraps around to 1.
\<close>

theorem end_skip_underflows:
  "0 < unat (samples_per_superframe 0)
   \<and> unat (start_skip (get_buffer_parameter 0 0xFFFFFFFF 0))
           + unat (0xFFFFFFFF :: u32)
           + unat (end_skip (get_buffer_parameter 0 0xFFFFFFFF 0))
       \<noteq> unat (num_superframe 0 0xFFFFFFFF 0) * unat (samples_per_superframe 0)
   \<and> unat ((start_superframe 0 0 + num_superframe 0 0xFFFFFFFF 0) * samples_per_superframe 0)
       < unat (0 + 0xFFFFFFFF :: u32)"
  by (simp add: format_defs)

subsection \<open>Discard trimming\<close>

text \<open>
  C1 at an input the code can be given: a superframe of 256 samples, the last one of
  its buffer, whose buffer asks for 300 samples to be discarded at the end. The code
  clamps the skip to 256 in \<^verbatim>\<open>skipped_samples\<close> and then subtracts the
  unclamped 300: the kept size wraps around to \<open>2 ^ 32 - 44\<close>, far outside
  \<open>[0, 256]\<close>.
\<close>

theorem trim_superframe_end_discard_unclamped:
  "trim_superframe
     \<lparr> buffer = 0x1000, bytes_count = 8, loop_count = 0, next_buffer_index = - 1,
       samples_discard_start_off = 0, samples_discard_end_off = 300 \<rparr>
     0 8 8 256 = (0, 4294967252)
   \<and> \<not> unat (4294967252 :: u32) \<le> unat (256 :: u32)"
  by (simp add: trim_superframe_def)

subsection \<open>State changes\<close>

text \<open>
  C9, as the code has it. When the voice has become available, the buffer index, the
  byte offset and the loop iteration are set to zero and every counter keeps its
  value. Otherwise, when the voice is keyed off, the two since-key-on counters are
  set to zero and everything else, the buffer position included, keeps its value.
  The backlog is never touched.
\<close>

theorem on_state_change_effect:
  "(voice_state (parent data) = VOICE_STATE_AVAILABLE \<longrightarrow>
      current_buffer (state (on_state_change data previous)) = 0
    \<and> current_byte_position_in_buffer (state (on_state_change data previous)) = 0
    \<and> current_loop_count (state (on_state_change data previous)) = 0
    \<and> samples_generated_since_key_on (state (on_state_change data previous))
        = samples_generated_since_key_on (state data)
    \<and> bytes_consumed_since_key_on (state (on_state_change data previous))
        = bytes_consumed_since_key_on (state data))
   \<and> (voice_state (parent data) \<noteq> VOICE_STATE_AVAILABLE \<and> is_keyed_off (parent data) \<longrightarrow>
      samples_generated_since_key_on (state (on_state_change data previous)) = 0
    \<and> bytes_consumed_since_key_on (state (on_state_change data previous)) = 0
    \<and> current_buffer (state (on_state_change data previous)) = current_buffer (state data)
    \<and> current_byte_position_in_buffer (state (on_state_change data previous))
        = current_byte_position_in_buffer (state data)
    \<and> current_loop_count (state (on_state_change data previous))
        = current_loop_count (state data))
   \<and> samples_generated_total (state (on_state_change data previous))
       = samples_generated_total (state data)
   \<and> total_bytes_consumed (state (on_state_change data previous))
       = total_bytes_consumed (state data)
   \<and> decoded_samples_pending (state (on_state_change data previous))
       = decoded_samples_pending (state data)
   \<and> decoded_passed (state (on_state_change data previous)) = decoded_passed (state data)
   \<and> extra_storage (on_state_change data previous) = extra_storage data"
  by (simp add: on_state_change_def)

theorem on_state_change_effect_witness:
  "voice_state (parent (busy_voice VOICE_STATE_AVAILABLE False)) = VOICE_STATE_AVAILABLE
   \<and> current_buffer (state (busy_voice VOICE_STATE_AVAILABLE False)) = 1
   \<and> current_buffer (state (on_state_change (busy_voice VOICE_STATE_AVAILABLE False)
                                (VOICE_STATE_OTHER 1))) = 0
   \<and> current_byte_position_in_buffer (state (busy_voice VOICE_STATE_AVAILABLE False)) = 8
   \<and> current_byte_position_in_buffer
         (state (on_state_change (busy_voice VOICE_STATE_AVAILABLE False)
                   (VOICE_STATE_OTHER 1))) = 0
   \<and> current_loop_count (state (busy_voice VOICE_STATE_AVAILABLE False)) = 2
   \<and> current_loop_count (state (on_state_change (busy_voice VOICE_STATE_AVAILABLE False)
                                    (VOICE_STATE_OTHER 1))) = 0
   \<and> samples_generated_since_key_on
         (state (on_state_change (busy_voice VOICE_STATE_AVAILABLE False)
                   (VOICE_STATE_OTHER 1))) = 5
   \<and> decoded_samples_pending
         (state (on_state_change (busy_voice VOICE_STATE_AVAILABLE False)
                   (VOICE_STATE_OTHER 1))) = 3
   \<and> voice_state (parent (busy_voice (VOICE_STATE_OTHER 1) True)) \<noteq> VOICE_STATE_AVAILABLE
   \<and> is_keyed_off (parent (busy_voice (VOICE_STATE_OTHER 1) True))
   \<and> samples_generated_since_key_on (state (busy_voice (VOICE_STATE_OTHER 1) True)) = 5
   \<and> samples_generated_since_key_on
         (state (on_state_change (busy_voice (VOICE_STATE_OTHER 1) True)
                   (VOICE_STATE_OTHER 1))) = 0
   \<and> bytes_consumed_since_key_on (state (busy_voice (VOICE_STATE_OTHER 1) True)) = 7
   \<and> bytes_consumed_since_key_on
         (state (on_state_change (busy_voice (VOICE_STATE_OTHER 1) True)
                   (VOICE_STATE_OTHER 1))) = 0
   \<and> current_buffer (state (on_state_change (busy_voice (VOICE_STATE_OTHER 1) True)
                                (VOICE_STATE_OTHER 1))) = 1
   \<and> current_byte_position_in_buffer
         (state (on_state_change (busy_voice (VOICE_STATE_OTHER 1) True)
                   (VOICE_STATE_OTHER 1))) = 8
   \<and> current_loop_count (state (on_state_change (busy_voice (VOICE_STATE_OTHER 1) True)
                                    (VOICE_STATE_OTHER 1))) = 2"
proof -
  let ?idle = "busy_voice VOICE_STATE_AVAILABLE False"
  let ?keyed = "busy_voice (VOICE_STATE_OTHER 1) True"
  let ?prev = "VOICE_STATE_OTHER 1"
  have a: "voice_state (parent ?idle) = VOICE_STATE_AVAILABLE"
    by (simp add: busy_voice_def)
  have k: "voice_state (parent ?keyed) \<noteq> VOICE_STATE_AVAILABLE \<and> is_keyed_off (parent ?keyed)"
    by (simp add: busy_voice_def)
  have before: "current_buffer (state (busy_voice vs keyed)) = 1"
    "current_byte_position_in_buffer (state (busy_voice vs keyed)) = 8"
    "current_loop_count (state (busy_voice vs keyed)) = 2"
    "samples_generated_since_key_on (state (busy_voice vs keyed)) = 5"
    "bytes_consumed_since_key_on (state (busy_voice vs keyed)) = 7"
    "decoded_samples_pending (state (busy_voice vs keyed)) = 3" for vs keyed
    by (simp_all add: busy_voice_def)
  have idle: "current_buffer (state (on_state_change ?idle ?prev)) = 0
      \<and> current_byte_position_in_buffer (state (on_state_change ?idle ?prev)) = 0
      \<and> current_loop_count (state (on_state_change ?idle ?prev)) = 0
      \<and> samples_generated_since_key_on (state (on_state_change ?idle ?prev))
          = samples_generated_since_key_on (state ?idle)
      \<and> decoded_samples_pending (state (on_state_change ?idle ?prev))
          = decoded_samples_pending (state ?idle)"
    using a on_state_change_effect [of ?idle ?prev] by blast
  have keyed: "samples_generated_since_key_on (state (on_state_change ?keyed ?prev)) = 0
      \<and> bytes_consumed_since_key_on (state (on_state_change ?keyed ?prev)) = 0
      \<and> current_buffer (state (on_state_change ?keyed ?prev)) = current_buffer (state ?keyed)
      \<and> current_byte_position_in_buffer (state (on_state_change ?keyed ?prev))
          = current_byte_position_in_buffer (state ?keyed)
      \<and> current_loop_count (state (on_state_change ?keyed ?prev))
          = current_loop_count (state ?keyed)"
    using k on_state_change_effect [of ?keyed ?prev] by blast
  from idle have idle': "current_buffer (state (on_state_change ?idle ?prev)) = 0
      \<and> current_byte_position_in_buffer (state (on_state_change ?idle ?prev)) = 0
      \<and> current_loop_count (state (on_state_change ?idle ?prev)) = 0
      \<and> samples_generated_since_key_on (state (on_state_change ?idle ?prev)) = 5
      \<and> decoded_samples_pending (state (on_state_change ?idle ?prev)) = 3"
    unfolding before .
  from keyed have keyed': "samples_generated_since_key_on (state (on_state_change ?keyed ?prev)) = 0
      \<and> bytes_consumed_since_key_on (state (on_state_change ?keyed ?prev)) = 0
      \<and> current_buffer (state (on_state_change ?keyed ?prev)) = 1
      \<and> current_byte_position_in_buffer (state (on_state_change ?keyed ?prev)) = 8
      \<and> current_loop_count (state (on_state_change ?keyed ?prev)) = 2"
    unfolding before .
  from a k before [of VOICE_STATE_AVAILABLE False] before [of "VOICE_STATE_OTHER 1" True]
    idle' keyed'
  show ?thesis
    by blast
qed

text \<open>
  C9 as stated fails in its first half: an available voice keeps its counters. A
  voice with 5 samples generated in total and 3 decoded samples pending still has
  both after the change to available.
\<close>

theorem on_state_change_keeps_counters:
  "voice_state (parent ((initial_data 4 :: nat ModuleData)
       \<lparr>state := initial_state\<lparr>samples_generated_total := 5, decoded_samples_pending := 3\<rparr>,
        parent := (parent (initial_data 4 :: nat ModuleData))\<lparr>voice_state := VOICE_STATE_AVAILABLE\<rparr>\<rparr>))
     = VOICE_STATE_AVAILABLE
   \<and> samples_generated_total (state (on_state_change ((initial_data 4 :: nat ModuleData)
       \<lparr>state := initial_state\<lparr>samples_generated_total := 5, decoded_samples_pending := 3\<rparr>,
        parent := (parent (initial_data 4 :: nat ModuleData))\<lparr>voice_state := VOICE_STATE_AVAILABLE\<rparr>\<rparr>)
       (VOICE_STATE_OTHER 1))) = 5
   \<and> decoded_samples_pending (state (on_state_change ((initial_data 4 :: nat ModuleData)
       \<lparr>state := initial_state\<lparr>samples_generated_total := 5, decoded_samples_pending := 3\<rparr>,
        parent := (parent (initial_data 4 :: nat ModuleData))\<lparr>voice_state := VOICE_STATE_AVAILABLE\<rparr>\<rparr>)
       (VOICE_STATE_OTHER 1))) = 3"
  by (simp add: on_state_change_def)

subsection \<open>Walking the buffer chain\<close>

lemmas example_defs = example_buffer_def voice_at_def looping_params_def chain_params_def
  single_params_def initial_data_def initial_state_def stub_decoder_def

lemmas step_defs = decode_more_data_def compact_def switch_buffer_def find_data_def
  buffer_at_def decode_superframe_def trim_superframe_def resize_def write_at_def

lemma compact_fields:
  assumes "compact data = Inr data1"
  shows "callbacks data1 = callbacks data"
    and "parent data1 = parent data"
    and "state data1 = (state data)\<lparr>decoded_passed := decoded_passed (state data1)\<rparr>"
  using assms by (auto simp: compact_def split: if_splits)

lemma find_data_fields:
  assumes "find_data params data2 = Inr (again, data3)"
  shows "data3 = data2\<lparr>state := (state data2)\<lparr>current_byte_position_in_buffer := 0\<rparr>\<rparr>"
  using assms by (auto simp: find_data_def Let_def split: if_splits sum.splits)

lemma transition_result:
  assumes b: "buffer_at params (current_buffer (state data)) = Inr b"
    and ex: "bytes_count b \<le> current_byte_position_in_buffer (state data)"
    and r: "decode_more_data dec params d data = Inr (again, d', data')"
  shows "\<exists>data1 data2. compact data = Inr data1 \<and> switch_buffer params b data1 = Inr data2
            \<and> find_data params data2 = Inr (again, data') \<and> d' = d"
proof -
  have pos: "\<And>data1. compact data = Inr data1 \<Longrightarrow> current_byte_position_in_buffer (state data1) = current_byte_position_in_buffer (state data)"
    by (auto simp: compact_def split: if_splits)
  show ?thesis
    using r b ex pos
    by (auto simp: decode_more_data_def split: sum.splits if_splits)
qed

lemma switch_buffer_stay:
  assumes "switch_buffer params b data1 = Inr data2"
    and "\<not> (loop_count b \<noteq> - 1 \<and> sint (loop_count b) < sint (current_loop_count (state data1) + 1))"
  shows "\<exists>b'. buffer_at params (current_buffer (state data1)) = Inr b'
          \<and> data2 = data1\<lparr>state := (state data1)\<lparr>current_loop_count := current_loop_count (state data1) + 1\<rparr>,
               callbacks := callbacks data1 @
                 [(SCE_NGS_AT9_SWAPPED_BUFFER, current_loop_count (state data1) + 1, buffer b'),
                  (SCE_NGS_AT9_LOOPED_BUFFER, current_loop_count (state data1) + 1, buffer b')]\<rparr>"
  using assms by (auto simp: switch_buffer_def Let_def split: sum.splits if_splits)

lemma switch_buffer_advance:
  assumes "switch_buffer params b data1 = Inr data2"
    and "loop_count b \<noteq> - 1 \<and> sint (loop_count b) < sint (current_loop_count (state data1) + 1)"
  shows "(next_buffer_index b = - 1 \<longrightarrow>
            data2 = data1\<lparr>state := (state data1)\<lparr>current_loop_count := 0, current_buffer := - 1\<rparr>,
               callbacks := callbacks data1 @ [(SCE_NGS_AT9_END_OF_DATA, 0, 0)]\<rparr>)
       \<and> (next_buffer_index b \<noteq> - 1 \<longrightarrow>
            (\<exists>b'. buffer_at params (next_buffer_index b) = Inr b'
              \<and> data2 = data1\<lparr>state := (state data1)\<lparr>current_loop_count := 0,
                                     current_buffer := next_buffer_index b\<rparr>,
               callbacks := callbacks data1 @ [(SCE_NGS_AT9_SWAPPED_BUFFER, 0, buffer b')]\<rparr>))"
  using assms by (auto simp: switch_buffer_def Let_def split: sum.splits if_splits)

lemma find_data_terminal:
  assumes "find_data params data2 = Inr (again, data3)" and "current_buffer (state data2) = - 1"
  shows "\<not> again"
  using assms by (auto simp: find_data_def Let_def split: if_splits sum.splits)

text \<open>
  C4. A call of the decode step on a buffer with loop count 2 whose bytes are used
  up. In loop iterations 0 and 1 the voice stays on the buffer, at byte 0 and in the
  next iteration, and the callbacks are a swapped-buffer and a looped-buffer
  callback, both with the new iteration and the buffer's address. In iteration 2,
  the third time through, the voice moves to the next buffer index with iteration 0:
  to a terminal index with an end-of-data callback alone (and the step reports that
  no data is left), to any other index with a swapped-buffer callback alone, which
  carries the next buffer's address.
\<close>

theorem loop_count_two_plays_three_times:
  assumes b: "buffer_at params (current_buffer (state data)) = Inr b"
    and two: "loop_count b = 2"
    and ex: "bytes_count b \<le> current_byte_position_in_buffer (state data)"
    and r: "decode_more_data dec params d data = Inr (again, d', data')"
  shows "(current_loop_count (state data) = 0 \<or> current_loop_count (state data) = 1 \<longrightarrow>
            current_buffer (state data') = current_buffer (state data)
          \<and> current_loop_count (state data') = current_loop_count (state data) + 1
          \<and> current_byte_position_in_buffer (state data') = 0
          \<and> callbacks data' = callbacks data @
                [(SCE_NGS_AT9_SWAPPED_BUFFER, current_loop_count (state data) + 1, buffer b),
                 (SCE_NGS_AT9_LOOPED_BUFFER, current_loop_count (state data) + 1, buffer b)])
       \<and> (current_loop_count (state data) = 2 \<longrightarrow>
            current_buffer (state data') = next_buffer_index b
          \<and> current_loop_count (state data') = 0
          \<and> current_byte_position_in_buffer (state data') = 0
          \<and> (next_buffer_index b = - 1 \<longrightarrow>
                callbacks data' = callbacks data @ [(SCE_NGS_AT9_END_OF_DATA, 0, 0)] \<and> \<not> again)
          \<and> (next_buffer_index b \<noteq> - 1 \<longrightarrow>
                (\<exists>b'. buffer_at params (next_buffer_index b) = Inr b'
                   \<and> callbacks data' = callbacks data @ [(SCE_NGS_AT9_SWAPPED_BUFFER, 0, buffer b')])))"
proof -
  from transition_result [OF b ex r] obtain data1 data2 where
    c: "compact data = Inr data1" and s: "switch_buffer params b data1 = Inr data2"
    and f: "find_data params data2 = Inr (again, data')"
    by blast
  note cf = compact_fields [OF c]
  note ff = find_data_fields [OF f]
  have lc: "current_loop_count (state data1) = current_loop_count (state data)"
    and cb: "current_buffer (state data1) = current_buffer (state data)"
    by (subst cf(3), simp)+
  have stay: ?thesis if "current_loop_count (state data) = 0 \<or> current_loop_count (state data) = 1"
  proof -
    have "\<not> (loop_count b \<noteq> - 1 \<and> sint (loop_count b) < sint (current_loop_count (state data1) + 1))"
      using that two lc by auto
    from switch_buffer_stay [OF s this] b cb
    have "data2 = data1\<lparr>state := (state data1)\<lparr>current_loop_count := current_loop_count (state data1) + 1\<rparr>,
               callbacks := callbacks data1 @
                 [(SCE_NGS_AT9_SWAPPED_BUFFER, current_loop_count (state data1) + 1, buffer b),
                  (SCE_NGS_AT9_LOOPED_BUFFER, current_loop_count (state data1) + 1, buffer b)]\<rparr>"
      by auto
    with ff lc cb cf(1) that show ?thesis by auto
  qed
  have adv: ?thesis if l2: "current_loop_count (state data) = 2"
  proof -
    have "loop_count b \<noteq> - 1 \<and> sint (loop_count b) < sint (current_loop_count (state data1) + 1)"
      using l2 two lc by simp
    note a = switch_buffer_advance [OF s this]
    show ?thesis
    proof (cases "next_buffer_index b = - 1")
      case True
      with a have d2: "data2 = data1\<lparr>state := (state data1)\<lparr>current_loop_count := 0, current_buffer := - 1\<rparr>,
               callbacks := callbacks data1 @ [(SCE_NGS_AT9_END_OF_DATA, 0, 0)]\<rparr>" by blast
      then have "current_buffer (state data2) = - 1" by simp
      from find_data_terminal [OF f this] d2 ff cf(1) l2 True show ?thesis by auto
    next
      case False
      with a obtain b' where "buffer_at params (next_buffer_index b) = Inr b'"
        and "data2 = data1\<lparr>state := (state data1)\<lparr>current_loop_count := 0,
                                     current_buffer := next_buffer_index b\<rparr>,
               callbacks := callbacks data1 @ [(SCE_NGS_AT9_SWAPPED_BUFFER, 0, buffer b')]\<rparr>"
        by blast
      with ff cf(1) l2 False show ?thesis by auto
    qed
  qed
  show ?thesis
  proof (cases "current_loop_count (state data) = 2")
    case True then show ?thesis by (rule adv)
  next
    case False
    show ?thesis
    proof (cases "current_loop_count (state data) = 0 \<or> current_loop_count (state data) = 1")
      case True then show ?thesis by (rule stay)
    next
      case False
      with \<open>current_loop_count (state data) \<noteq> 2\<close> show ?thesis by simp
    qed
  qed
qed


theorem loop_count_two_plays_three_times_witness:
  "buffer_at looping_params (current_buffer (state (voice_at 4 8 0)))
     = Inr (example_buffer 0x1000 8 2 1)
   \<and> loop_count (example_buffer 0x1000 8 2 1) = 2
   \<and> bytes_count (example_buffer 0x1000 8 2 1)
       \<le> current_byte_position_in_buffer (state (voice_at 4 8 0))
   \<and> decode_more_data (stub_decoder 0) looping_params 0 (voice_at 4 8 0)
       = Inr (True, 0,
              (voice_at 4 0 1)\<lparr>callbacks := [(SCE_NGS_AT9_SWAPPED_BUFFER, 1, 0x1000),
                                            (SCE_NGS_AT9_LOOPED_BUFFER, 1, 0x1000)]\<rparr>)
   \<and> current_loop_count (state (voice_at 4 8 0)) = 0
   \<and> current_buffer (state ((voice_at 4 0 1)
         \<lparr>callbacks := [(SCE_NGS_AT9_SWAPPED_BUFFER, 1, 0x1000),
                        (SCE_NGS_AT9_LOOPED_BUFFER, 1, 0x1000)]\<rparr>))
       = current_buffer (state (voice_at 4 8 0))
   \<and> decode_more_data (stub_decoder 0) looping_params 0 (voice_at 4 8 2)
       = Inr (True, 0,
              (voice_at 4 0 0)\<lparr>state := (state (voice_at 4 0 0))\<lparr>current_buffer := 1\<rparr>,
                               callbacks := [(SCE_NGS_AT9_SWAPPED_BUFFER, 0, 0x2000)]\<rparr>)
   \<and> current_loop_count (state (voice_at 4 8 2)) = 2
   \<and> current_buffer (state ((voice_at 4 0 0)
         \<lparr>state := (state (voice_at 4 0 0))\<lparr>current_buffer := 1\<rparr>,
          callbacks := [(SCE_NGS_AT9_SWAPPED_BUFFER, 0, 0x2000)]\<rparr>))
       = next_buffer_index (example_buffer 0x1000 8 2 1)"
proof -
  let ?b = "example_buffer 0x1000 8 2 1"
  let ?stay = "(voice_at 4 0 1)\<lparr>callbacks := [(SCE_NGS_AT9_SWAPPED_BUFFER, 1, 0x1000),
                                            (SCE_NGS_AT9_LOOPED_BUFFER, 1, 0x1000)]\<rparr>"
  let ?next = "(voice_at 4 0 0)\<lparr>state := (state (voice_at 4 0 0))\<lparr>current_buffer := 1\<rparr>,
                               callbacks := [(SCE_NGS_AT9_SWAPPED_BUFFER, 0, 0x2000)]\<rparr>"
  have b0: "buffer_at looping_params (current_buffer (state (voice_at 4 8 0))) = Inr ?b"
    and b2: "buffer_at looping_params (current_buffer (state (voice_at 4 8 2))) = Inr ?b"
    by (simp_all add: buffer_at_def example_defs)
  have two: "loop_count ?b = 2"
    by (simp add: example_defs)
  have e0: "bytes_count ?b \<le> current_byte_position_in_buffer (state (voice_at 4 8 0))"
    and e2: "bytes_count ?b \<le> current_byte_position_in_buffer (state (voice_at 4 8 2))"
    by (simp_all add: example_defs)
  have r0: "decode_more_data (stub_decoder 0) looping_params 0 (voice_at 4 8 0)
              = Inr (True, 0, ?stay)"
    and r2: "decode_more_data (stub_decoder 0) looping_params 0 (voice_at 4 8 2)
              = Inr (True, 0, ?next)"
    by (simp_all add: step_defs example_defs)
  have l0: "current_loop_count (state (voice_at 4 8 0)) = 0"
    and l2: "current_loop_count (state (voice_at 4 8 2)) = 2"
    by (simp_all add: example_defs)
  have s0: "current_buffer (state ?stay) = current_buffer (state (voice_at 4 8 0))"
    using loop_count_two_plays_three_times [OF b0 two e0 r0] l0 by blast
  have s2: "current_buffer (state ?next) = next_buffer_index ?b"
    using loop_count_two_plays_three_times [OF b2 two e2 r2] l2 by blast
  show ?thesis
    using b0 two e0 r0 l0 s0 r2 l2 s2 by blast
qed

lemma skip_empty_walk:
  assumes "skip_empty params k cur = Inr c" and "k \<le> 4"
  shows "\<exists>n. n + k \<le> 4 \<and> hop_chain params n cur = Inr c
           \<and> (\<forall>j<n. \<exists>cj. hop_chain params j cur = Inr cj \<and> empty_slot params cj)
           \<and> (n + k < 4 \<longrightarrow> \<not> empty_slot params c)"
  using assms
proof (induction params k cur rule: skip_empty.induct)
  case (1 params k cur)
  show ?case
  proof (cases "k < 4 \<and> empty_slot params cur")
    case False
    then have "c = cur"
      using "1.prems"(1)
      by (subst (asm) skip_empty.simps) (auto simp: empty_slot_def split: sum.splits if_splits)
    with False "1.prems"(2) show ?thesis
      by (intro exI [of _ 0]) auto
  next
    case True
    then obtain b where b: "buffer_at params cur = Inr b" and z: "bytes_count b = 0"
      and k: "k < 4" and c: "cur \<noteq> - 1"
      by (auto simp: empty_slot_def split: sum.splits)
    have rec: "skip_empty params (k + 1) (next_buffer_index b) = Inr c"
      using "1.prems"(1) b z k c by (subst (asm) skip_empty.simps) simp
    from "1.IH" [OF _ b z rec] k c obtain n where
      n: "n + (k + 1) \<le> 4" and h: "hop_chain params n (next_buffer_index b) = Inr c"
      and e: "\<forall>j<n. \<exists>cj. hop_chain params j (next_buffer_index b) = Inr cj \<and> empty_slot params cj"
      and l: "n + (k + 1) < 4 \<longrightarrow> \<not> empty_slot params c"
      by auto
    have "\<exists>cj. hop_chain params j cur = Inr cj \<and> empty_slot params cj" if "j < Suc n" for j
    proof (cases j)
      case 0
      with True show ?thesis by simp
    next
      case (Suc i)
      with that e b show ?thesis by simp
    qed
    with n h l b show ?thesis
      by (intro exI [of _ "Suc n"]) simp
  qed
qed

text \<open>
  C8. A call of the decode step that switches buffers and lands on an empty buffer.
  The buffer index the step judges by is reached from the landing index in at most
  4 hops, every buffer passed on the way is empty, the walk ends before the fourth
  hop only at an index that is not an empty buffer, and the step reports data
  exactly when that index is a buffer with bytes; otherwise (terminal, or still
  empty after 4 hops) it reports that no data is left.
\<close>

theorem empty_buffers_skipped_within_four_hops:
  assumes b: "buffer_at params (current_buffer (state data)) = Inr b"
    and ex: "bytes_count b \<le> current_byte_position_in_buffer (state data)"
    and r: "decode_more_data dec params d data = Inr (again, d', data')"
    and landed: "empty_slot params (current_buffer (state data'))"
  shows "\<exists>n cur. n \<le> 4
           \<and> hop_chain params n (current_buffer (state data')) = Inr cur
           \<and> (\<forall>j<n. \<exists>cj. hop_chain params j (current_buffer (state data')) = Inr cj
                         \<and> empty_slot params cj)
           \<and> (n < 4 \<longrightarrow> \<not> empty_slot params cur)
           \<and> (again \<longleftrightarrow> data_slot params cur)"
proof -
  from transition_result [OF b ex r] obtain data1 data2 where
    "compact data = Inr data1" and "switch_buffer params b data1 = Inr data2"
    and f: "find_data params data2 = Inr (again, data')"
    by blast
  note ff = find_data_fields [OF f]
  let ?cur = "current_buffer (state data')"
  have same: "current_buffer (state data2) = ?cur"
    by (subst ff) simp
  from landed obtain bl where t: "?cur \<noteq> - 1" and bl: "buffer_at params ?cur = Inr bl"
    and z: "bytes_count bl = 0"
    by (auto simp: empty_slot_def split: sum.splits)
  from f t bl z same obtain c where w: "skip_empty params 0 ?cur = Inr c"
    and a: "again \<longleftrightarrow> data_slot params c"
    by (auto simp: find_data_def Let_def data_slot_def split: sum.splits if_splits)
  from skip_empty_walk [OF w] a show ?thesis
    by auto
qed


theorem empty_buffers_skipped_within_four_hops_witness:
  "buffer_at chain_params (current_buffer (state (voice_at 4 8 0)))
     = Inr (example_buffer 0x1000 8 0 1)
   \<and> bytes_count (example_buffer 0x1000 8 0 1)
       \<le> current_byte_position_in_buffer (state (voice_at 4 8 0))
   \<and> decode_more_data (stub_decoder 0) chain_params 0 (voice_at 4 8 0)
       = Inr (True, 0,
              (voice_at 4 0 0)\<lparr>state := (state (voice_at 4 0 0))\<lparr>current_buffer := 1\<rparr>,
                               callbacks := [(SCE_NGS_AT9_SWAPPED_BUFFER, 0, 0x2000)]\<rparr>)
   \<and> empty_slot chain_params 1
   \<and> (\<exists>n cur. n \<le> 4 \<and> hop_chain chain_params n 1 = Inr cur \<and> data_slot chain_params cur)"
proof -
  let ?b = "example_buffer 0x1000 8 0 1"
  let ?next = "(voice_at 4 0 0)\<lparr>state := (state (voice_at 4 0 0))\<lparr>current_buffer := 1\<rparr>,
                               callbacks := [(SCE_NGS_AT9_SWAPPED_BUFFER, 0, 0x2000)]\<rparr>"
  have b: "buffer_at chain_params (current_buffer (state (voice_at 4 8 0))) = Inr ?b"
    by (simp add: buffer_at_def example_defs)
  have e: "bytes_count ?b \<le> current_byte_position_in_buffer (state (voice_at 4 8 0))"
    by (simp add: example_defs)
  have r: "decode_more_data (stub_decoder 0) chain_params 0 (voice_at 4 8 0)
             = Inr (True, 0, ?next)"
    by (simp add: step_defs example_defs skip_empty.simps)
  have l: "empty_slot chain_params (current_buffer (state ?next))"
    by (simp add: empty_slot_def buffer_at_def example_defs)
  have l': "empty_slot chain_params 1"
    by (simp add: empty_slot_def buffer_at_def example_defs)
  have same: "current_buffer (state ?next) = 1"
    by simp
  have "\<exists>n cur. n \<le> 4 \<and> hop_chain chain_params n 1 = Inr cur \<and> data_slot chain_params cur"
    using empty_buffers_skipped_within_four_hops [OF b e r l] unfolding same by blast
  with b e r l' show ?thesis
    by blast
qed

subsection \<open>Decoding a superframe\<close>

lemma compact_position:
  assumes "compact data = Inr data1"
  shows "current_byte_position_in_buffer (state data1)
           = current_byte_position_in_buffer (state data)"
  by (subst compact_fields(3) [OF assms]) simp

lemma length_write_at:
  "off + length src \<le> length dst \<Longrightarrow> length (write_at off src dst) = length dst"
  by (simp add: write_at_def)

lemma decode_frames_length:
  "decode_frames dec frame d input position pos scratch = Inr (err, d1, position', scratch')
     \<Longrightarrow> length scratch' = length scratch"
proof (induction dec frame d input position pos scratch rule: decode_frames.induct)
  case (1 dec frame d input position pos scratch)
  show ?case
  proof (cases "frame < unat (get dec d AT9_FRAMES_IN_SUPERFRAME)")
    case False
    with "1.prems" show ?thesis
      by (subst (asm) decode_frames.simps) simp
  next
    case True
    obtain sent d1' where s: "send dec d input = (sent, d1')"
      by (cases "send dec d input")
    show ?thesis
    proof (cases sent)
      case False
      with "1.prems" True s show ?thesis
        by (subst (asm) decode_frames.simps) simp
    next
      case sent: True
      obtain samples d2 where rc: "receive dec d1' = (samples, d2)"
        by (cases "receive dec d1'")
      show ?thesis
      proof (cases "pos + length samples \<le> length scratch")
        case False
        with "1.prems" True s sent rc show ?thesis
          by (subst (asm) decode_frames.simps) simp
      next
        case fits: True
        have "decode_frames dec (frame + 1) d2 (input + get_es_size dec d2)
                (position + get_es_size dec d2) (pos + length samples)
                (write_at pos samples scratch) = Inr (err, d1, position', scratch')"
          using "1.prems" True s sent rc fits by (subst (asm) decode_frames.simps) simp
        from "1.IH" [OF True s [symmetric] _ rc [symmetric] fits this] sent
        have "length scratch' = length (write_at pos samples scratch)"
          by simp
        with fits show ?thesis
          by (simp add: length_write_at)
      qed
    qed
  qed
qed

text \<open>What a call of the decode step does when it decodes a superframe.\<close>

lemma decode_step_result:
  assumes b: "buffer_at params (current_buffer (state data)) = Inr b"
    and left: "current_byte_position_in_buffer (state data) < bytes_count b"
    and enough: "get dec d AT9_SUPERFRAME_SIZE
                   \<le> bytes_count b - current_byte_position_in_buffer (state data)"
    and r: "decode_more_data dec params d data = Inr (again, d', data')"
  obtains data1 err d1 position' scratch' off kept where
      "compact data = Inr data1"
    and "decode_frames dec 0 d (buffer b + current_byte_position_in_buffer (state data))
          (current_byte_position_in_buffer (state data)) 0
          (replicate (unat (get dec d AT9_SAMPLE_PER_SUPERFRAME)) (silence dec))
        = Inr (err, d1, position', scratch')"
    and "trim_superframe b (current_byte_position_in_buffer (state data))
          (get dec d AT9_SUPERFRAME_SIZE)
          (bytes_count b - current_byte_position_in_buffer (state data))
          (get dec d AT9_SAMPLE_PER_SUPERFRAME) = (off, kept)"
    and "unat off + unat kept \<le> unat (get dec d AT9_SAMPLE_PER_SUPERFRAME)"
    and "length scratch' = unat (get dec d AT9_SAMPLE_PER_SUPERFRAME)"
    and "again"
    and "d' = (if err then clear_context dec d1 else d1)"
    and "extra_storage data'
        = write_at (unat (decoded_samples_pending (state data)))
            (take (unat kept) (drop (unat off) scratch'))
            (resize (unat (decoded_samples_pending (state data)) + unat kept) (silence dec)
               (extra_storage data1))"
    and "callbacks data'
        = (if err then callbacks data @ [(SCE_NGS_AT9_DECODE_ERROR, position', buffer b)]
           else callbacks data)"
    and "parent data' = parent data"
    and "state data'
        = (state data1)\<lparr>
             current_byte_position_in_buffer := position',
             samples_generated_since_key_on :=
               samples_generated_since_key_on (state data) + kept,
             samples_generated_total := samples_generated_total (state data) + kept,
             bytes_consumed_since_key_on :=
               bytes_consumed_since_key_on (state data) + get dec d AT9_SUPERFRAME_SIZE,
             total_bytes_consumed :=
               total_bytes_consumed (state data) + get dec d AT9_SUPERFRAME_SIZE,
             decoded_samples_pending := decoded_samples_pending (state data) + kept\<rparr>"
proof -
  let ?pos = "current_byte_position_in_buffer (state data)"
  let ?sps = "get dec d AT9_SAMPLE_PER_SUPERFRAME"
  from r b obtain data1 where c: "compact data = Inr data1"
    by (auto simp: decode_more_data_def split: sum.splits)
  note cf = compact_fields [OF c]
  have p1: "current_byte_position_in_buffer (state data1) = ?pos"
    by (rule compact_position [OF c])
  have st1: "decoded_samples_pending (state data1) = decoded_samples_pending (state data)"
    "samples_generated_since_key_on (state data1) = samples_generated_since_key_on (state data)"
    "samples_generated_total (state data1) = samples_generated_total (state data)"
    "bytes_consumed_since_key_on (state data1) = bytes_consumed_since_key_on (state data)"
    "total_bytes_consumed (state data1) = total_bytes_consumed (state data)"
    by (subst cf(3), simp)+
  have ds: "decode_superframe dec b d data1 = Inr (again, d', data')"
    using r b c left p1 by (simp add: decode_more_data_def not_le [symmetric])
  obtain off kept where t: "trim_superframe b ?pos (get dec d AT9_SUPERFRAME_SIZE)
      (bytes_count b - ?pos) ?sps = (off, kept)"
    by (cases "trim_superframe b ?pos (get dec d AT9_SUPERFRAME_SIZE) (bytes_count b - ?pos) ?sps")
  have ne: "\<not> bytes_count b - ?pos < get dec d AT9_SUPERFRAME_SIZE"
    using enough by simp
  from ds ne obtain err d1 position' scratch' where
    df: "decode_frames dec 0 d (buffer b + ?pos) ?pos 0 (replicate (unat ?sps) (silence dec))
           = Inr (err, d1, position', scratch')"
    by (auto simp: decode_superframe_def Let_def p1 t split: if_splits sum.splits)
  have len: "length scratch' = unat ?sps"
    using decode_frames_length [OF df] by simp
  have res: "unat off + unat kept \<le> unat ?sps \<and> again
      \<and> d' = (if err then clear_context dec d1 else d1)
      \<and> data' = data1\<lparr>
           extra_storage :=
             write_at (unat (decoded_samples_pending (state data)))
               (take (unat kept) (drop (unat off) scratch'))
               (resize (unat (decoded_samples_pending (state data)) + unat kept) (silence dec)
                  (extra_storage data1)),
           callbacks :=
             (if err then callbacks data @ [(SCE_NGS_AT9_DECODE_ERROR, position', buffer b)]
              else callbacks data),
           state := (state data1)\<lparr>
             current_byte_position_in_buffer := position',
             samples_generated_since_key_on :=
               samples_generated_since_key_on (state data) + kept,
             samples_generated_total := samples_generated_total (state data) + kept,
             bytes_consumed_since_key_on :=
               bytes_consumed_since_key_on (state data) + get dec d AT9_SUPERFRAME_SIZE,
             total_bytes_consumed :=
               total_bytes_consumed (state data) + get dec d AT9_SUPERFRAME_SIZE,
             decoded_samples_pending := decoded_samples_pending (state data) + kept\<rparr>\<rparr>"
    using ds ne df len cf(1) st1
    by (auto simp: decode_superframe_def Let_def p1 t split: if_splits)
  show ?thesis
    using c df t len res cf(2) by (intro that [of data1 err d1 position' scratch' off kept]) simp_all
qed

lemma appended:
  assumes "length src = n"
  shows "length (write_at p src (resize (p + n) z xs)) = p + n"
    and "drop p (write_at p src (resize (p + n) z xs)) = src"
    and "take p (write_at p src (resize (p + n) z xs)) = take p xs @ replicate (p - length xs) z"
  using assms by (auto simp: write_at_def resize_def)

lemma decode_frames_second_fails:
  assumes f1: "0 < unat (get dec d AT9_FRAMES_IN_SUPERFRAME)"
    and s1: "send dec d input = (True, d1)"
    and rc: "receive dec d1 = (samples, d2)"
    and f2: "1 < unat (get dec d2 AT9_FRAMES_IN_SUPERFRAME)"
    and s2: "send dec d2 (input + get_es_size dec d2) = (False, d3)"
  shows "decode_frames dec 0 d input position 0 scratch
           = (if length samples \<le> length scratch then
                Inr (True, d3, position + get_es_size dec d2, write_at 0 samples scratch)
              else Inl ScratchOutOfRange)"
proof (cases "length samples \<le> length scratch")
  case False
  with f1 s1 rc show ?thesis
    by (subst decode_frames.simps) simp
next
  case True
  have "decode_frames dec (0 + 1) d2 (input + get_es_size dec d2)
          (position + get_es_size dec d2) (0 + length samples) (write_at 0 samples scratch)
        = Inr (True, d3, position + get_es_size dec d2, write_at 0 samples scratch)"
    using f2 s2 by (subst decode_frames.simps) simp
  with True f1 s1 rc show ?thesis
    by (subst decode_frames.simps) simp
qed

lemma replicate_num: "replicate (numeral n) x = x # replicate (pred_numeral n) x"
  by (simp add: numeral_eq_Suc)

lemma failed_run:
  "decode_more_data (stub_decoder 2) single_params 0 (voice_at 4 0 0)
     = Inr (True, 2,
            \<lparr> state = \<lparr> current_byte_position_in_buffer = 4, current_loop_count = 0,
                        current_buffer = 0, samples_generated_since_key_on = 4,
                        bytes_consumed_since_key_on = 8, samples_generated_total = 4,
                        total_bytes_consumed = 8, decoded_samples_pending = 4,
                        decoded_passed = 0 \<rparr>,
              extra_storage = [1, 1, 0, 0],
              callbacks = [(SCE_NGS_AT9_DECODE_ERROR, 4, 0x1000)],
              parent = \<lparr> voice_state = VOICE_STATE_OTHER 1, is_keyed_off = False,
                         granularity = 4, products0 = None \<rparr> \<rparr>)"
  by (simp add: step_defs example_defs decode_frames.simps replicate_num)

lemma failed_run_inputs:
  "buffer_at single_params (current_buffer (state (voice_at 4 0 0)))
     = Inr (example_buffer 0x1000 16 0 (- 1))"
  "current_byte_position_in_buffer (state (voice_at 4 0 0))
     < bytes_count (example_buffer 0x1000 16 0 (- 1))"
  "get (stub_decoder 2) 0 AT9_SUPERFRAME_SIZE
     \<le> bytes_count (example_buffer 0x1000 16 0 (- 1))
        - current_byte_position_in_buffer (state (voice_at 4 0 0))"
  by (simp_all add: buffer_at_def example_defs)

lemma failed_run_trim:
  "trim_superframe (example_buffer 0x1000 16 0 (- 1))
     (current_byte_position_in_buffer (state (voice_at 4 0 0)))
     (get (stub_decoder 2) 0 AT9_SUPERFRAME_SIZE)
     (bytes_count (example_buffer 0x1000 16 0 (- 1))
        - current_byte_position_in_buffer (state (voice_at 4 0 0)))
     (get (stub_decoder 2) 0 AT9_SAMPLE_PER_SUPERFRAME) = (0, 4)"
  by (simp add: example_defs trim_superframe_def)

lemma write_at_append:
  assumes "off + length a + length b \<le> length dst"
  shows "write_at (off + length a) b (write_at off a dst) = write_at off (a @ b) dst"
proof -
  have "off \<le> length dst" and "off + length a \<le> length dst"
    using assms by simp_all
  then show ?thesis
    by (simp add: write_at_def min_absorb2 ac_simps)
qed

lemma write_at_nil: "off \<le> length dst \<Longrightarrow> write_at off [] dst = dst"
  by (simp add: write_at_def)

lemma write_at_start:
  "length src \<le> n \<Longrightarrow> write_at 0 src (replicate n z) = src @ replicate (n - length src) z"
  by (simp add: write_at_def)

text \<open>
  The frame loop runs through a prefix of frames that are all sent and received, and
  goes on behind it.
\<close>

lemma decode_frames_prefix:
  assumes "decoded_prefix dec k frame d input = Some (out, dk, bytes)"
    and "pos \<le> length scratch"
  shows "decode_frames dec frame d input position pos scratch
           = (if pos + length out \<le> length scratch then
                decode_frames dec (frame + k) dk (input + bytes) (position + bytes)
                  (pos + length out) (write_at pos out scratch)
              else Inl ScratchOutOfRange)"
  using assms
proof (induction k arbitrary: frame d input position pos scratch out bytes)
  case 0
  then show ?case
    by (simp add: write_at_nil)
next
  case (Suc k)
  from Suc.prems(1) have more: "frame < unat (get dec d AT9_FRAMES_IN_SUPERFRAME)"
    by (simp split: if_splits)
  obtain sent d1 where s: "send dec d input = (sent, d1)"
    by (cases "send dec d input")
  obtain samples d2 where rc: "receive dec d1 = (samples, d2)"
    by (cases "receive dec d1")
  from Suc.prems(1) more s have sent: sent
    by (simp split: if_splits)
  from Suc.prems(1) more s sent rc obtain rest more_bytes where
    p: "decoded_prefix dec k (frame + 1) d2 (input + get_es_size dec d2)
          = Some (rest, dk, more_bytes)"
    and out: "out = samples @ rest"
    and bytes: "bytes = get_es_size dec d2 + more_bytes"
    by (auto split: option.splits)
  have unfold: "decode_frames dec frame d input position pos scratch
      = (if pos + length samples \<le> length scratch then
           decode_frames dec (frame + 1) d2 (input + get_es_size dec d2)
             (position + get_es_size dec d2) (pos + length samples)
             (write_at pos samples scratch)
         else Inl ScratchOutOfRange)"
    using more s sent rc by (subst decode_frames.simps) simp
  show ?case
  proof (cases "pos + length samples \<le> length scratch")
    case False
    with unfold out show ?thesis
      by simp
  next
    case fits: True
    have len: "length (write_at pos samples scratch) = length scratch"
      using fits by (rule length_write_at)
    have "pos + length samples \<le> length (write_at pos samples scratch)"
      using fits len by simp
    note IH = Suc.IH [OF p this, of "position + get_es_size dec d2"]
    show ?thesis
    proof (cases "pos + length out \<le> length scratch")
      case False
      with unfold fits IH len out show ?thesis
        by (simp add: add.assoc)
    next
      case True
      then have "pos + length samples + length rest \<le> length scratch"
        using out by simp
      note w = write_at_append [OF this]
      from unfold fits IH len out True w bytes show ?thesis
        by (simp add: add.assoc)
    qed
  qed
qed

text \<open>
  What the frame loop yields when the frames of a prefix are sent and received and
  the submission of the next frame fails.
\<close>

lemma decode_frames_fails_after_prefix:
  assumes p: "decoded_prefix dec k 0 d input = Some (out, dk, bytes)"
    and more: "k < unat (get dec dk AT9_FRAMES_IN_SUPERFRAME)"
    and fail: "send dec dk (input + bytes) = (False, df)"
  shows "decode_frames dec 0 d input position 0 (replicate n z)
           = (if length out \<le> n then
                Inr (True, df, position + bytes, out @ replicate (n - length out) z)
              else Inl ScratchOutOfRange)"
proof (cases "length out \<le> n")
  case False
  with decode_frames_prefix [OF p, of 0 "replicate n z" position] show ?thesis
    by simp
next
  case True
  note w = write_at_start [OF True, of z]
  have "decode_frames dec (0 + k) dk (input + bytes) (position + bytes)
          (0 + length out) (out @ replicate (n - length out) z)
        = Inr (True, df, position + bytes, out @ replicate (n - length out) z)"
    using more fail by (subst decode_frames.simps) simp
  with decode_frames_prefix [OF p, of 0 "replicate n z" position] True show ?thesis
    unfolding w by simp
qed

text \<open>A call of the decode step that decodes a superframe returns, with more data to come.\<close>

lemma decode_step_returns:
  assumes b: "buffer_at params (current_buffer (state data)) = Inr b"
    and left: "current_byte_position_in_buffer (state data) < bytes_count b"
    and enough: "get dec d AT9_SUPERFRAME_SIZE
                   \<le> bytes_count b - current_byte_position_in_buffer (state data)"
    and nz: "get dec d AT9_SUPERFRAME_SIZE \<noteq> 0"
    and c: "compact data = Inr data1"
    and run: "decode_frames dec 0 d (buffer b + current_byte_position_in_buffer (state data))
          (current_byte_position_in_buffer (state data)) 0
          (replicate (unat (get dec d AT9_SAMPLE_PER_SUPERFRAME)) (silence dec))
        = Inr (err, d1, position', scratch')"
    and t: "trim_superframe b (current_byte_position_in_buffer (state data))
          (get dec d AT9_SUPERFRAME_SIZE)
          (bytes_count b - current_byte_position_in_buffer (state data))
          (get dec d AT9_SAMPLE_PER_SUPERFRAME) = (off, kept)"
    and fit: "unat off + unat kept \<le> unat (get dec d AT9_SAMPLE_PER_SUPERFRAME)"
  shows "\<exists>data'. decode_more_data dec params d data
                   = Inr (True, (if err then clear_context dec d1 else d1), data')"
proof -
  let ?pos = "current_byte_position_in_buffer (state data)"
  have p1: "current_byte_position_in_buffer (state data1) = ?pos"
    by (rule compact_position [OF c])
  have ne: "\<not> bytes_count b - ?pos < get dec d AT9_SUPERFRAME_SIZE"
    using enough by simp
  have len: "length scratch' = unat (get dec d AT9_SAMPLE_PER_SUPERFRAME)"
    using decode_frames_length [OF run] by simp
  have "\<exists>data'. decode_superframe dec b d data1
                  = Inr (True, (if err then clear_context dec d1 else d1), data')"
    using ne nz run t fit len by (simp add: decode_superframe_def Let_def p1)
  then show ?thesis
    using b c left p1 by (simp add: decode_more_data_def not_le [symmetric])
qed

text \<open>
  C2, as the code has it. A call of the decode step on a superframe of which the
  first \<open>k\<close> frames are sent and received, giving the sample-frames \<open>out\<close> from
  \<open>bytes\<close> bytes of input, and the submission of the next frame fails. The frame
  loop stops there: the step returns with more data to come and hands on the
  decoder as the failed submission left it, with its context cleared, and the byte
  position has advanced by the bytes of the frames before the failure alone. The
  step goes on as for a whole superframe: the backlog then holds the pending
  sample-frames and after them the kept region of the scratch vector, which is
  \<open>out\<close> with silence behind it up to the samples of a superframe, and the pending
  count, both sample counters and both byte counters advance by the kept size and by
  the superframe size.
\<close>

theorem failed_submission_still_counted:
  assumes b: "buffer_at params (current_buffer (state data)) = Inr b"
    and left: "current_byte_position_in_buffer (state data) < bytes_count b"
    and enough: "get dec d AT9_SUPERFRAME_SIZE
                   \<le> bytes_count b - current_byte_position_in_buffer (state data)"
    and nz: "get dec d AT9_SUPERFRAME_SIZE \<noteq> 0"
    and c: "compact data = Inr data1"
    and pre: "decoded_prefix dec k 0 d
                (buffer b + current_byte_position_in_buffer (state data))
              = Some (out, dk, bytes)"
    and frames: "k < unat (get dec dk AT9_FRAMES_IN_SUPERFRAME)"
    and failing: "send dec dk (buffer b + current_byte_position_in_buffer (state data) + bytes)
                    = (False, df)"
    and fits: "length out \<le> unat (get dec d AT9_SAMPLE_PER_SUPERFRAME)"
    and trim: "trim_superframe b (current_byte_position_in_buffer (state data))
                 (get dec d AT9_SUPERFRAME_SIZE)
                 (bytes_count b - current_byte_position_in_buffer (state data))
                 (get dec d AT9_SAMPLE_PER_SUPERFRAME) = (off, kept)"
    and fit: "unat off + unat kept \<le> unat (get dec d AT9_SAMPLE_PER_SUPERFRAME)"
  shows "\<exists>data'.
           decode_more_data dec params d data = Inr (True, clear_context dec df, data')
         \<and> current_byte_position_in_buffer (state data')
             = current_byte_position_in_buffer (state data) + bytes
         \<and> length (extra_storage data')
             = unat (decoded_samples_pending (state data)) + unat kept
         \<and> take (unat (decoded_samples_pending (state data))) (extra_storage data')
             = take (unat (decoded_samples_pending (state data))) (extra_storage data1)
               @ replicate (unat (decoded_samples_pending (state data))
                             - length (extra_storage data1)) (silence dec)
         \<and> drop (unat (decoded_samples_pending (state data))) (extra_storage data')
             = take (unat kept)
                 (drop (unat off)
                    (out @ replicate (unat (get dec d AT9_SAMPLE_PER_SUPERFRAME) - length out)
                             (silence dec)))
         \<and> decoded_samples_pending (state data') = decoded_samples_pending (state data) + kept
         \<and> samples_generated_since_key_on (state data')
             = samples_generated_since_key_on (state data) + kept
         \<and> samples_generated_total (state data') = samples_generated_total (state data) + kept
         \<and> bytes_consumed_since_key_on (state data')
             = bytes_consumed_since_key_on (state data) + get dec d AT9_SUPERFRAME_SIZE
         \<and> total_bytes_consumed (state data')
             = total_bytes_consumed (state data) + get dec d AT9_SUPERFRAME_SIZE"
proof -
  let ?pos = "current_byte_position_in_buffer (state data)"
  let ?sps = "unat (get dec d AT9_SAMPLE_PER_SUPERFRAME)"
  let ?scratch = "out @ replicate (?sps - length out) (silence dec)"
  have run: "decode_frames dec 0 d (buffer b + ?pos) ?pos 0 (replicate ?sps (silence dec))
               = Inr (True, df, ?pos + bytes, ?scratch)"
    using decode_frames_fails_after_prefix [OF pre frames failing, of ?pos ?sps "silence dec"]
      fits by simp
  from decode_step_returns [OF b left enough nz c run trim fit]
  obtain data' where
    r: "decode_more_data dec params d data = Inr (True, clear_context dec df, data')"
    by auto
  show ?thesis
  proof (rule decode_step_result [OF b left enough r])
    fix data1' err dx position'' scratch'' off' kept'
    assume c': "compact data = Inr data1'"
      and run': "decode_frames dec 0 d (buffer b + ?pos) ?pos 0
            (replicate ?sps (silence dec))
          = Inr (err, dx, position'', scratch'')"
      and t: "trim_superframe b ?pos
            (get dec d AT9_SUPERFRAME_SIZE)
            (bytes_count b - ?pos)
            (get dec d AT9_SAMPLE_PER_SUPERFRAME) = (off', kept')"
      and storage': "extra_storage data'
          = write_at (unat (decoded_samples_pending (state data)))
              (take (unat kept') (drop (unat off') scratch''))
              (resize (unat (decoded_samples_pending (state data)) + unat kept') (silence dec)
                 (extra_storage data1'))"
      and st': "state data'
          = (state data1')\<lparr>
               current_byte_position_in_buffer := position'',
               samples_generated_since_key_on :=
                 samples_generated_since_key_on (state data) + kept',
               samples_generated_total := samples_generated_total (state data) + kept',
               bytes_consumed_since_key_on :=
                 bytes_consumed_since_key_on (state data) + get dec d AT9_SUPERFRAME_SIZE,
               total_bytes_consumed :=
                 total_bytes_consumed (state data) + get dec d AT9_SUPERFRAME_SIZE,
               decoded_samples_pending := decoded_samples_pending (state data) + kept'\<rparr>"
    from run run' have loop: "position'' = ?pos + bytes" "scratch'' = ?scratch"
      by simp_all
    from t trim have eq: "off' = off" "kept' = kept"
      by simp_all
    from c c' have same: "data1' = data1"
      by simp
    note storage = storage' [unfolded eq same loop] and st = st' [unfolded eq same loop]
    have "length (take (unat kept) (drop (unat off) ?scratch)) = unat kept"
      using fit fits by simp
    note a = appended [OF this]
    have front: "take (unat (decoded_samples_pending (state data))) (extra_storage data')
                 = take (unat (decoded_samples_pending (state data))) (extra_storage data1)
                   @ replicate (unat (decoded_samples_pending (state data))
                                 - length (extra_storage data1)) (silence dec)"
      unfolding storage by (rule a(3))
    have rear: "drop (unat (decoded_samples_pending (state data))) (extra_storage data')
             = take (unat kept) (drop (unat off) ?scratch)"
      unfolding storage by (rule a(2))
    have len: "length (extra_storage data')
             = unat (decoded_samples_pending (state data)) + unat kept"
      unfolding storage by (rule a(1))
    have counters: "current_byte_position_in_buffer (state data') = ?pos + bytes"
      "decoded_samples_pending (state data') = decoded_samples_pending (state data) + kept"
      "samples_generated_since_key_on (state data')
         = samples_generated_since_key_on (state data) + kept"
      "samples_generated_total (state data') = samples_generated_total (state data) + kept"
      "bytes_consumed_since_key_on (state data')
         = bytes_consumed_since_key_on (state data) + get dec d AT9_SUPERFRAME_SIZE"
      "total_bytes_consumed (state data')
         = total_bytes_consumed (state data) + get dec d AT9_SUPERFRAME_SIZE"
      unfolding st by simp_all
    from r front rear len counters show ?thesis
      by blast
  qed
qed

lemma failed_run_prefix:
  "decoded_prefix (stub_decoder 2) (Suc 0) 0 0
     (buffer (example_buffer 0x1000 16 0 (- 1))
        + current_byte_position_in_buffer (state (voice_at 4 0 0)))
   = Some ([1, 1], 1, 4)"
  "Suc 0 < unat (get (stub_decoder 2) 1 AT9_FRAMES_IN_SUPERFRAME)"
  "send (stub_decoder 2) 1
     (buffer (example_buffer 0x1000 16 0 (- 1))
        + current_byte_position_in_buffer (state (voice_at 4 0 0)) + 4)
   = (False, 2)"
  "length [1 :: nat, 1] \<le> unat (get (stub_decoder 2) 0 AT9_SAMPLE_PER_SUPERFRAME)"
  "unat (0 :: u32) + unat (4 :: u32) \<le> unat (get (stub_decoder 2) 0 AT9_SAMPLE_PER_SUPERFRAME)"
  "get (stub_decoder 2) 0 AT9_SUPERFRAME_SIZE \<noteq> 0"
  "compact (voice_at 4 0 0) = Inr (voice_at 4 0 0)"
  by (simp_all add: example_defs compact_def)

theorem failed_submission_still_counted_witness:
  "decoded_prefix (stub_decoder 2) (Suc 0) 0 0
     (buffer (example_buffer 0x1000 16 0 (- 1))
        + current_byte_position_in_buffer (state (voice_at 4 0 0)))
     = Some ([1, 1], 1, 4)
   \<and> send (stub_decoder 2) 1
       (buffer (example_buffer 0x1000 16 0 (- 1))
          + current_byte_position_in_buffer (state (voice_at 4 0 0)) + 4)
     = (False, 2)
   \<and> (\<exists>data'.
         decode_more_data (stub_decoder 2) single_params 0 (voice_at 4 0 0)
           = Inr (True, clear_context (stub_decoder 2) 2, data')
       \<and> current_byte_position_in_buffer (state data')
           = current_byte_position_in_buffer (state (voice_at 4 0 0)) + 4
       \<and> length (extra_storage data')
           = unat (decoded_samples_pending (state (voice_at 4 0 0))) + unat (4 :: u32)
       \<and> drop (unat (decoded_samples_pending (state (voice_at 4 0 0)))) (extra_storage data')
           = take (unat (4 :: u32))
               (drop (unat (0 :: u32))
                  ([1, 1] @ replicate
                     (unat (get (stub_decoder 2) 0 AT9_SAMPLE_PER_SUPERFRAME) - length [1 :: nat, 1])
                     (silence (stub_decoder 2))))
       \<and> decoded_samples_pending (state data')
           = decoded_samples_pending (state (voice_at 4 0 0)) + 4)"
proof -
  note c = failed_submission_still_counted
    [OF failed_run_inputs failed_run_prefix(6,7,1,2,3,4) failed_run_trim failed_run_prefix(5)]
  from c have "\<exists>data'.
         decode_more_data (stub_decoder 2) single_params 0 (voice_at 4 0 0)
           = Inr (True, clear_context (stub_decoder 2) 2, data')
       \<and> current_byte_position_in_buffer (state data')
           = current_byte_position_in_buffer (state (voice_at 4 0 0)) + 4
       \<and> length (extra_storage data')
           = unat (decoded_samples_pending (state (voice_at 4 0 0))) + unat (4 :: u32)
       \<and> drop (unat (decoded_samples_pending (state (voice_at 4 0 0)))) (extra_storage data')
           = take (unat (4 :: u32))
               (drop (unat (0 :: u32))
                  ([1, 1] @ replicate
                     (unat (get (stub_decoder 2) 0 AT9_SAMPLE_PER_SUPERFRAME) - length [1 :: nat, 1])
                     (silence (stub_decoder 2))))
       \<and> decoded_samples_pending (state data')
           = decoded_samples_pending (state (voice_at 4 0 0)) + 4"
    by blast
  with failed_run_prefix(1,3) show ?thesis
    by blast
qed

text \<open>
  C2 as stated fails. With a decoder whose second submission fails, on an empty
  backlog, the first frame's two sample-frames are appended to the backlog with two
  zero sample-frames behind them, and every counter advances as for a whole
  superframe.
\<close>

theorem partial_superframe_is_appended:
  "fst (send (stub_decoder 2) 0 0x1000)
   \<and> \<not> fst (send (stub_decoder 2) (snd (receive (stub_decoder 2)
                                           (snd (send (stub_decoder 2) 0 0x1000)))) 0x1004)
   \<and> extra_storage (voice_at 4 0 0) = []
   \<and> decoded_samples_pending (state (voice_at 4 0 0)) = 0
   \<and> (case decode_more_data (stub_decoder 2) single_params 0 (voice_at 4 0 0) of
         Inl e \<Rightarrow> False
       | Inr (again, d', data') \<Rightarrow>
           extra_storage data' = [1, 1, 0, 0]
         \<and> decoded_samples_pending (state data') = 4
         \<and> samples_generated_since_key_on (state data') = 4
         \<and> samples_generated_total (state data') = 4
         \<and> bytes_consumed_since_key_on (state data') = 8
         \<and> total_bytes_consumed (state data') = 8)"
  unfolding failed_run by (simp add: example_defs)

text \<open>
  C3, as the code has it. A call of the decode step in which the first frame of the
  superframe is sent and received and the submission of the second frame fails. The
  decode-error callback carries the byte position after the first frame, which is
  the superframe's start plus the encoded size the decoder reports, and the buffer's
  address; the voice's byte position is left there, so the next step starts at the
  failed frame; and the decoder is handed on with its context cleared.
\<close>

theorem decode_error_reports_position_of_failed_frame:
  assumes b: "buffer_at params (current_buffer (state data)) = Inr b"
    and left: "current_byte_position_in_buffer (state data) < bytes_count b"
    and enough: "get dec d AT9_SUPERFRAME_SIZE
                   \<le> bytes_count b - current_byte_position_in_buffer (state data)"
    and r: "decode_more_data dec params d data = Inr (again, d', data')"
    and f1: "0 < unat (get dec d AT9_FRAMES_IN_SUPERFRAME)"
    and s1: "send dec d (buffer b + current_byte_position_in_buffer (state data)) = (True, d1)"
    and rc: "receive dec d1 = (samples, d2)"
    and f2: "1 < unat (get dec d2 AT9_FRAMES_IN_SUPERFRAME)"
    and s2: "send dec d2 (buffer b + current_byte_position_in_buffer (state data)
                            + get_es_size dec d2) = (False, d3)"
  shows "callbacks data'
           = callbacks data
             @ [(SCE_NGS_AT9_DECODE_ERROR,
                 current_byte_position_in_buffer (state data) + get_es_size dec d2,
                 buffer b)]
       \<and> current_byte_position_in_buffer (state data')
           = current_byte_position_in_buffer (state data) + get_es_size dec d2
       \<and> d' = clear_context dec d3
       \<and> again"
proof -
  let ?pos = "current_byte_position_in_buffer (state data)"
  note df = decode_frames_second_fails [OF f1 s1 rc f2 s2, of ?pos
      "replicate (unat (get dec d AT9_SAMPLE_PER_SUPERFRAME)) (silence dec)"]
  show ?thesis
  proof (rule decode_step_result [OF b left enough r])
    fix data1 err dx position' scratch' off kept
    assume run: "decode_frames dec 0 d (buffer b + ?pos) ?pos 0
          (replicate (unat (get dec d AT9_SAMPLE_PER_SUPERFRAME)) (silence dec))
        = Inr (err, dx, position', scratch')"
      and again: again
      and d': "d' = (if err then clear_context dec dx else dx)"
      and cb: "callbacks data'
        = (if err then callbacks data @ [(SCE_NGS_AT9_DECODE_ERROR, position', buffer b)]
           else callbacks data)"
      and st: "state data'
        = (state data1)\<lparr>
             current_byte_position_in_buffer := position',
             samples_generated_since_key_on :=
               samples_generated_since_key_on (state data) + kept,
             samples_generated_total := samples_generated_total (state data) + kept,
             bytes_consumed_since_key_on :=
               bytes_consumed_since_key_on (state data) + get dec d AT9_SUPERFRAME_SIZE,
             total_bytes_consumed :=
               total_bytes_consumed (state data) + get dec d AT9_SUPERFRAME_SIZE,
             decoded_samples_pending := decoded_samples_pending (state data) + kept\<rparr>"
    have pos: "current_byte_position_in_buffer (state data') = position'"
      unfolding st by simp
    from run df have "err \<and> dx = d3 \<and> position' = ?pos + get_es_size dec d2"
      by (auto split: if_splits)
    with again d' cb pos show ?thesis
      by simp
  qed
qed

theorem decode_error_reports_position_of_failed_frame_witness:
  "buffer_at single_params (current_buffer (state (voice_at 4 0 0)))
     = Inr (example_buffer 0x1000 16 0 (- 1))
   \<and> current_byte_position_in_buffer (state (voice_at 4 0 0))
       < bytes_count (example_buffer 0x1000 16 0 (- 1))
   \<and> get (stub_decoder 2) 0 AT9_SUPERFRAME_SIZE
       \<le> bytes_count (example_buffer 0x1000 16 0 (- 1))
          - current_byte_position_in_buffer (state (voice_at 4 0 0))
   \<and> 0 < unat (get (stub_decoder 2) 0 AT9_FRAMES_IN_SUPERFRAME)
   \<and> send (stub_decoder 2) 0
        (buffer (example_buffer 0x1000 16 0 (- 1))
           + current_byte_position_in_buffer (state (voice_at 4 0 0))) = (True, 1)
   \<and> receive (stub_decoder 2) 1 = ([1, 1], 1)
   \<and> 1 < unat (get (stub_decoder 2) 1 AT9_FRAMES_IN_SUPERFRAME)
   \<and> send (stub_decoder 2) 1
        (buffer (example_buffer 0x1000 16 0 (- 1))
           + current_byte_position_in_buffer (state (voice_at 4 0 0))
           + get_es_size (stub_decoder 2) 1) = (False, 2)
   \<and> (\<exists>again d' data'.
         decode_more_data (stub_decoder 2) single_params 0 (voice_at 4 0 0)
           = Inr (again, d', data')
       \<and> current_byte_position_in_buffer (state data')
           = current_byte_position_in_buffer (state (voice_at 4 0 0))
             + get_es_size (stub_decoder 2) 1
       \<and> d' = clear_context (stub_decoder 2) 2)"
proof -
  have f1: "0 < unat (get (stub_decoder 2) 0 AT9_FRAMES_IN_SUPERFRAME)"
    and s1: "send (stub_decoder 2) 0
        (buffer (example_buffer 0x1000 16 0 (- 1))
           + current_byte_position_in_buffer (state (voice_at 4 0 0))) = (True, 1)"
    and rc: "receive (stub_decoder 2) 1 = ([1, 1], 1)"
    and f2: "1 < unat (get (stub_decoder 2) 1 AT9_FRAMES_IN_SUPERFRAME)"
    and s2: "send (stub_decoder 2) 1
        (buffer (example_buffer 0x1000 16 0 (- 1))
           + current_byte_position_in_buffer (state (voice_at 4 0 0))
           + get_es_size (stub_decoder 2) 1) = (False, 2)"
    by (simp_all add: stub_decoder_def)
  note r = failed_run
  note c = decode_error_reports_position_of_failed_frame
    [OF failed_run_inputs r f1 s1 rc f2 s2]
  from c r have "\<exists>again d' data'.
         decode_more_data (stub_decoder 2) single_params 0 (voice_at 4 0 0)
           = Inr (again, d', data')
       \<and> current_byte_position_in_buffer (state data')
           = current_byte_position_in_buffer (state (voice_at 4 0 0))
             + get_es_size (stub_decoder 2) 1
       \<and> d' = clear_context (stub_decoder 2) 2"
    by blast
  with failed_run_inputs f1 s1 rc f2 s2 show ?thesis
    by blast
qed

text \<open>
  C3 as stated fails. With a decoder whose second submission fails, from byte 0 of
  the buffer, the callback carries offset 4, the position of the failed frame, where
  the superframe starts at 0; the voice stays at byte 4.
\<close>

theorem decode_error_offset_is_past_superframe_start:
  "current_byte_position_in_buffer (state (voice_at 4 0 0)) = 0
   \<and> fst (send (stub_decoder 2) 0 0x1000)
   \<and> \<not> fst (send (stub_decoder 2) (snd (receive (stub_decoder 2)
                                           (snd (send (stub_decoder 2) 0 0x1000)))) 0x1004)
   \<and> (case decode_more_data (stub_decoder 2) single_params 0 (voice_at 4 0 0) of
         Inl e \<Rightarrow> False
       | Inr (again, d', data') \<Rightarrow>
           callbacks data' = [(SCE_NGS_AT9_DECODE_ERROR, 4, 0x1000)]
         \<and> current_byte_position_in_buffer (state data') = 4)"
  unfolding failed_run by (simp add: example_defs)

subsection \<open>Ticks and the backlog\<close>

lemma sint_small:
  fixes w :: u32
  assumes "unat w < 2 ^ 31"
  shows "sint w = uint w"
proof -
  have "w < 0x80000000"
    using assms by (simp add: word_less_nat_alt)
  then have "uint w < 2 ^ 31"
    by (simp add: word_less_def)
  moreover have "- (2 ^ 31) \<le> (0 :: int)"
    by simp
  then have "- (2 ^ 31) \<le> uint w"
    using uint_ge_0 [of w] by (rule order_trans)
  ultimately have "signed_take_bit 31 (uint w) = uint w"
    by (intro signed_take_bit_int_eq_self)
  then show ?thesis
    by (simp add: sint_uint)
qed

lemma sint_nonneg:
  fixes w :: u32
  assumes "0 \<le> sint w"
  shows "unat w < 2 ^ 31"
proof (rule ccontr)
  assume "\<not> unat w < 2 ^ 31"
  then have "\<not> w < 0x80000000"
    by (simp add: word_less_nat_alt)
  then have "2 ^ 31 \<le> uint w"
    by (simp add: word_less_def)
  then have "signed_take_bit 31 (uint w) \<le> uint w - 2 ^ Suc 31"
    by (rule signed_take_bit_int_less_eq)
  then have "signed_take_bit 31 (uint w) \<le> uint w - 4294967296"
    by simp
  moreover have "uint w < 4294967296"
    using uint_bounded [of w] by simp
  moreover have "sint w = signed_take_bit 31 (uint w)"
    by (simp add: sint_uint)
  ultimately have "sint w < 0"
    by linarith
  with assms show False by simp
qed

text \<open>On words below \<open>2 ^ 31\<close> the signed comparison is the unsigned one.\<close>

lemma signed_less_small:
  fixes v w :: u32
  assumes "unat v < 2 ^ 31" and "0 \<le> sint w"
  shows "sint v < sint w \<longleftrightarrow> unat v < unat w"
  using sint_small [OF assms(1)] sint_small [OF sint_nonneg [OF assms(2)]]
  by (simp add: word_less_def [symmetric] word_less_nat_alt)

lemma backlog_ok_same:
  assumes "extra_storage a = extra_storage b"
    and "decoded_samples_pending (state a) = decoded_samples_pending (state b)"
    and "decoded_passed (state a) = decoded_passed (state b)"
    and "parent a = parent b"
  shows "backlog_ok z a = backlog_ok z b"
  using assms by (simp add: backlog_ok_def)

lemma compact_ok:
  assumes ok: "backlog_ok z data" and c: "compact data = Inr data1"
  shows "backlog_ok z data1"
    and "decoded_passed (state data1) = 0"
    and "decoded_samples_pending (state data1) = decoded_samples_pending (state data)"
    and "parent data1 = parent data"
    and "unat (decoded_samples_pending (state data)) \<le> length (extra_storage data1)"
  using assms by (auto simp: backlog_ok_def compact_def unat_eq_zero split: if_splits)

lemma switch_buffer_fields:
  assumes "switch_buffer params b data1 = Inr data2"
  shows "extra_storage data2 = extra_storage data1"
    and "parent data2 = parent data1"
    and "decoded_samples_pending (state data2) = decoded_samples_pending (state data1)"
    and "decoded_passed (state data2) = decoded_passed (state data1)"
  using assms by (auto simp: switch_buffer_def Let_def split: if_splits sum.splits)

lemma short_buffer_result:
  assumes b: "buffer_at params (current_buffer (state data)) = Inr b"
    and left: "current_byte_position_in_buffer (state data) < bytes_count b"
    and short: "bytes_count b - current_byte_position_in_buffer (state data)
                  < get dec d AT9_SUPERFRAME_SIZE"
    and r: "decode_more_data dec params d data = Inr (again, d', data')"
  shows "compact data = Inr data' \<and> \<not> again \<and> d' = d"
proof -
  from r b obtain data1 where c: "compact data = Inr data1"
    by (auto simp: decode_more_data_def split: sum.splits)
  have p1: "current_byte_position_in_buffer (state data1)
              = current_byte_position_in_buffer (state data)"
    by (rule compact_position [OF c])
  have "decode_superframe dec b d data1 = Inr (again, d', data')"
    using r b c left p1 by (simp add: decode_more_data_def not_le [symmetric])
  with short c p1 show ?thesis
    by (simp add: decode_superframe_def Let_def)
qed

lemma decode_more_data_ok:
  assumes sizes: "sizes_ok dec (granularity (parent data))"
    and ok: "backlog_ok (silence dec) data"
    and lt: "sint (decoded_samples_pending (state data)) < sint (granularity (parent data))"
    and r: "decode_more_data dec params d data = Inr (again, d', data')"
  shows "backlog_ok (silence dec) data'"
    and "parent data' = parent data"
    and "decoded_passed (state data') = 0"
    and "\<not> again \<Longrightarrow>
           decoded_samples_pending (state data') = decoded_samples_pending (state data)"
    and "unat (decoded_samples_pending (state data)) \<le> length (extra_storage data')"
proof -
  let ?z = "silence dec"
  let ?p = "decoded_samples_pending (state data)"
  let ?g = "granularity (parent data)"
  from r obtain b where b: "buffer_at params (current_buffer (state data)) = Inr b"
    by (auto simp: decode_more_data_def split: sum.splits)
  from r b obtain data1 where c: "compact data = Inr data1"
    by (auto simp: decode_more_data_def split: sum.splits)
  note c1 = compact_ok [OF ok c]
  have all: "backlog_ok ?z data' \<and> parent data' = parent data
      \<and> decoded_passed (state data') = 0
      \<and> (\<not> again \<longrightarrow> decoded_samples_pending (state data') = ?p)
      \<and> unat ?p \<le> length (extra_storage data')"
  proof (cases "bytes_count b \<le> current_byte_position_in_buffer (state data)")
    case True
    from transition_result [OF b True r] c obtain data2 where
      s: "switch_buffer params b data1 = Inr data2"
      and f: "find_data params data2 = Inr (again, data')"
      by auto
    note sf = switch_buffer_fields [OF s]
    note ff = find_data_fields [OF f]
    have e: "extra_storage data' = extra_storage data1"
      "decoded_samples_pending (state data') = decoded_samples_pending (state data1)"
      "decoded_passed (state data') = decoded_passed (state data1)"
      "parent data' = parent data1"
      using sf by (subst ff, simp)+
    from backlog_ok_same [OF e, of ?z] c1 e show ?thesis
      by simp
  next
    case False
    then have left: "current_byte_position_in_buffer (state data) < bytes_count b"
      by simp
    show ?thesis
    proof (cases "bytes_count b - current_byte_position_in_buffer (state data)
                    < get dec d AT9_SUPERFRAME_SIZE")
      case True
      from short_buffer_result [OF b left True r] c have "data' = data1" "\<not> again"
        by simp_all
      with c1 show ?thesis by simp
    next
      case False
      then have enough: "get dec d AT9_SUPERFRAME_SIZE
                   \<le> bytes_count b - current_byte_position_in_buffer (state data)"
        by simp
      show ?thesis
      proof (rule decode_step_result [OF b left enough r])
        fix data1' err dx position' scratch' off kept
        assume c': "compact data = Inr data1'"
          and fit: "unat off + unat kept \<le> unat (get dec d AT9_SAMPLE_PER_SUPERFRAME)"
          and len: "length scratch' = unat (get dec d AT9_SAMPLE_PER_SUPERFRAME)"
          and again: again
          and storage: "extra_storage data'
            = write_at (unat ?p) (take (unat kept) (drop (unat off) scratch'))
                (resize (unat ?p + unat kept) ?z (extra_storage data1'))"
          and par: "parent data' = parent data"
          and st: "state data'
            = (state data1')\<lparr>
                 current_byte_position_in_buffer := position',
                 samples_generated_since_key_on :=
                   samples_generated_since_key_on (state data) + kept,
                 samples_generated_total := samples_generated_total (state data) + kept,
                 bytes_consumed_since_key_on :=
                   bytes_consumed_since_key_on (state data) + get dec d AT9_SUPERFRAME_SIZE,
                 total_bytes_consumed :=
                   total_bytes_consumed (state data) + get dec d AT9_SUPERFRAME_SIZE,
                 decoded_samples_pending := ?p + kept\<rparr>"
        from c c' have same: "data1' = data1" by simp
        have "length (take (unat kept) (drop (unat off) scratch')) = unat kept"
          using fit len by simp
        note a = appended [OF this, of "unat ?p" ?z "extra_storage data1'"]
        have small: "unat ?p < 2 ^ 31"
          using ok by (simp add: backlog_ok_def)
        have "0 \<le> sint ?g"
          using sizes by (simp add: sizes_ok_def)
        from lt signed_less_small [OF small this] have pg: "unat ?p < unat ?g"
          by simp
        have "unat ?g + unat (get dec d AT9_SAMPLE_PER_SUPERFRAME) \<le> 2 ^ 31"
          using sizes by (simp add: sizes_ok_def)
        with pg fit have sum: "unat ?p + unat kept < 2 ^ 31"
          by linarith
        then have add: "unat (?p + kept) = unat ?p + unat kept"
          by (simp add: unat_word_ariths)
        have passed: "decoded_passed (state data') = 0"
          unfolding st same using c1(2) by simp
        have pending: "decoded_samples_pending (state data') = ?p + kept"
          unfolding st by simp
        have "backlog_ok ?z data'"
          unfolding backlog_ok_def passed pending storage
          using a(1) add sum by simp
        moreover have "unat ?p \<le> length (extra_storage data')"
          unfolding storage using a(1) by simp
        ultimately show ?thesis
          using par passed again by simp
      qed
    qed
  qed
  from all show "backlog_ok (silence dec) data'"
    and "parent data' = parent data"
    and "decoded_passed (state data') = 0"
    and "\<not> again \<Longrightarrow>
           decoded_samples_pending (state data') = decoded_samples_pending (state data)"
    and "unat (decoded_samples_pending (state data)) \<le> length (extra_storage data')"
    by simp_all
qed

lemma nat_sint_granularity:
  fixes g :: u32
  assumes "0 \<le> sint g"
  shows "nat (sint g) = unat g"
proof -
  have "sint g = uint g"
    by (rule sint_small [OF sint_nonneg [OF assms]])
  then show ?thesis
    by (simp only: unat_eq_nat_uint)
qed

lemma finish_fields:
  "parent (finish z data) = (parent data)\<lparr>products0 := Some 0\<rparr>"
  "decoded_samples_pending (state (finish z data)) = decoded_samples_pending (state data)"
  "decoded_passed (state (finish z data)) = decoded_passed (state data)"
  "samples_generated_since_key_on (state (finish z data)) = 0"
  "bytes_consumed_since_key_on (state (finish z data)) = 0"
  "extra_storage (finish z data)
     = extra_storage data
       @ replicate (nat (sint (granularity (parent data))) - length (extra_storage data)) z"
  by (simp_all add: finish_def fill_to_fit_granularity_def Let_def)

lemma finish_padded:
  assumes ok: "backlog_ok z data"
    and passed: "decoded_passed (state data) = 0"
    and lt: "sint (decoded_samples_pending (state data)) < sint (granularity (parent data))"
    and g: "0 \<le> sint (granularity (parent data))"
  shows "unat (decoded_samples_pending (state data)) < unat (granularity (parent data))"
    and "length (extra_storage (finish z data)) = unat (granularity (parent data))"
    and "drop (unat (decoded_samples_pending (state data))) (extra_storage (finish z data))
           = replicate (unat (granularity (parent data))
                         - unat (decoded_samples_pending (state data))) z"
    and "backlog_ok z (finish z data)"
proof -
  let ?p = "unat (decoded_samples_pending (state data))"
  let ?g = "unat (granularity (parent data))"
  have small: "?p < 2 ^ 31"
    using ok by (simp add: backlog_ok_def)
  from lt signed_less_small [OF small g] show pg: "?p < ?g"
    by simp
  have store: "extra_storage (finish z data)
      = extra_storage data @ replicate (?g - length (extra_storage data)) z"
    by (simp add: finish_fields nat_sint_granularity [OF g])
  from ok passed have "length (extra_storage data) = ?p
      \<or> length (extra_storage data) = ?g
        \<and> drop ?p (extra_storage data) = replicate (?g - ?p) z"
    by (auto simp: backlog_ok_def)
  then have both: "length (extra_storage (finish z data)) = ?g
      \<and> drop ?p (extra_storage (finish z data)) = replicate (?g - ?p) z"
    using pg unfolding store by auto
  then show "length (extra_storage (finish z data)) = ?g"
    and "drop ?p (extra_storage (finish z data)) = replicate (?g - ?p) z"
    by simp_all
  with pg small passed show "backlog_ok z (finish z data)"
    by (simp add: backlog_ok_def finish_fields)
qed

lemma publish_fields:
  "extra_storage (publish data) = extra_storage data"
  "parent (publish data) = (parent data)\<lparr>products0 := Some (unat (decoded_passed (state data)))\<rparr>"
  "decoded_samples_pending (state (publish data))
     = (if decoded_samples_pending (state data) < granularity (parent data) then 0
        else decoded_samples_pending (state data) - granularity (parent data))"
  "decoded_passed (state (publish data))
     = decoded_passed (state data) + granularity (parent data)"
  by (simp_all add: publish_def Let_def)

lemma publish_ok:
  assumes ok: "backlog_ok z data"
    and enough: "\<not> sint (decoded_samples_pending (state data)) < sint (granularity (parent data))"
    and g: "0 \<le> sint (granularity (parent data))"
  shows "unat (granularity (parent data)) \<le> unat (decoded_samples_pending (state data))"
    and "unat (decoded_samples_pending (state (publish data)))
           = unat (decoded_samples_pending (state data)) - unat (granularity (parent data))"
    and "length (extra_storage (publish data))
           = unat (decoded_samples_pending (state (publish data)))
             + unat (decoded_passed (state (publish data)))"
    and "published (publish data)
           = take (unat (granularity (parent data)))
               (drop (unat (decoded_passed (state data))) (extra_storage data))"
    and "length (published (publish data)) = unat (granularity (parent data))"
    and "backlog_ok z (publish data)"
    and "unat (decoded_passed (state (publish data)))
           = unat (decoded_passed (state data)) + unat (granularity (parent data))"
proof -
  let ?p = "decoded_samples_pending (state data)"
  let ?c = "decoded_passed (state data)"
  let ?g = "granularity (parent data)"
  have sum: "unat ?p + unat ?c < 2 ^ 31"
    using ok by (simp add: backlog_ok_def)
  then have small: "unat ?p < 2 ^ 31"
    by simp
  from enough signed_less_small [OF small g] show gp: "unat ?g \<le> unat ?p"
    by simp
  then have len: "length (extra_storage data) = unat ?p + unat ?c"
    using ok by (auto simp: backlog_ok_def)
  have "\<not> ?p < ?g"
    using gp by (simp add: word_less_nat_alt)
  then have p': "decoded_samples_pending (state (publish data)) = ?p - ?g"
    by (simp add: publish_fields)
  have "?g \<le> ?p"
    using gp by (simp add: word_le_nat_alt)
  then show up: "unat (decoded_samples_pending (state (publish data))) = unat ?p - unat ?g"
    unfolding p' by (rule unat_sub)
  have "unat ?c + unat ?g < 2 ^ 32"
    using sum gp by simp
  then show uc: "unat (decoded_passed (state (publish data))) = unat ?c + unat ?g"
    by (simp add: publish_fields unat_word_ariths)
  show eq: "length (extra_storage (publish data))
           = unat (decoded_samples_pending (state (publish data)))
             + unat (decoded_passed (state (publish data)))"
    unfolding up uc using len gp by (simp add: publish_fields)
  show pub: "published (publish data) = take (unat ?g) (drop (unat ?c) (extra_storage data))"
    by (simp add: published_def publish_fields)
  show "length (published (publish data)) = unat ?g"
    unfolding pub using len gp by simp
  show "backlog_ok z (publish data)"
    unfolding backlog_ok_def using eq up uc sum gp by simp
qed

lemma decode_loop_ok:
  fixes dec :: "('d, 'a) Decoder"
  assumes r: "decode_loop dec params d data = Some (Inr (finished, d1, data1))"
    and sizes: "sizes_ok dec (granularity (parent data))"
    and ok: "backlog_ok (silence dec) data"
  shows "loop_left (silence dec) data finished data1"
proof -
  define P where "P = (\<lambda>(dec :: ('d, 'a) Decoder) (params :: Parameters) (d :: 'd)
      (data :: 'a ModuleData) (y :: fault + bool \<times> 'd \<times> 'a ModuleData).
      sizes_ok dec (granularity (parent data)) \<longrightarrow> backlog_ok (silence dec) data \<longrightarrow>
      (\<forall>finished d1 data1. y = Inr (finished, d1, data1)
          \<longrightarrow> loop_left (silence dec) data finished data1))"
  have "P dec params d data (Inr (finished, d1, data1))"
  proof (rule decode_loop.raw_induct [where P = P, OF _ r])
    fix loop :: "('d, 'a) Decoder \<Rightarrow> Parameters \<Rightarrow> 'd \<Rightarrow> 'a ModuleData
        \<Rightarrow> (fault + bool \<times> 'd \<times> 'a ModuleData) option"
    fix dec params d data y
    assume IH: "\<And>dec params d data y. loop dec params d data = Some y \<Longrightarrow> P dec params d data y"
    assume body: "(if sint (decoded_samples_pending (state data)) < sint (granularity (parent data))
       then case decode_more_data dec params d data of
              Inl e \<Rightarrow> Some (Inl e)
            | Inr (again, d1, data1) \<Rightarrow>
                if \<not> again then Some (Inr (True, d1, finish (silence dec) data1))
                else loop dec params d1 data1
       else Some (Inr (False, d, data))) = Some y"
    show "P dec params d data y"
      unfolding P_def
    proof (intro impI allI)
      fix finished d1 data1
      assume sizes: "sizes_ok dec (granularity (parent data))"
        and ok: "backlog_ok (silence dec) data"
        and y: "y = Inr (finished, d1, data1)"
      have g: "0 \<le> sint (granularity (parent data))"
        using sizes by (simp add: sizes_ok_def)
      show "loop_left (silence dec) data finished data1"
      proof (cases "sint (decoded_samples_pending (state data)) < sint (granularity (parent data))")
        case False
        with body y ok show ?thesis
          by (simp add: loop_left_def)
      next
        case lt: True
        from body y lt obtain again d2 data2 where
          step: "decode_more_data dec params d data = Inr (again, d2, data2)"
          and rest: "(if \<not> again then Some (Inr (True, d2, finish (silence dec) data2))
                      else loop dec params d2 data2) = Some (Inr (finished, d1, data1))"
          by (auto split: sum.splits)
        note s = decode_more_data_ok [OF sizes ok lt step]
        show ?thesis
        proof (cases again)
          case False
          with rest have fin: finished and d1: "data1 = finish (silence dec) data2"
            by simp_all
          have lt2: "sint (decoded_samples_pending (state data2))
                       < sint (granularity (parent data2))"
            using s(2) s(4) [OF False] lt by simp
          have g2: "0 \<le> sint (granularity (parent data2))"
            using g s(2) by simp
          note f = finish_padded [OF s(1) s(3) lt2 g2]
          show ?thesis
            unfolding loop_left_def d1 using fin f s(2) s(3)
            by (simp add: finish_fields)
        next
          case True
          with rest have "loop dec params d2 data2 = Some (Inr (finished, d1, data1))"
            by simp
          from IH [OF this] sizes s(1) s(2)
          have "loop_left (silence dec) data2 finished data1"
            by (simp add: P_def)
          with s(2) show ?thesis
            unfolding loop_left_def by auto
        qed
      qed
    qed
  qed
  with sizes ok show ?thesis
    by (simp add: P_def)
qed

lemma process_result:
  assumes cur: "current_buffer (state data) \<noteq> - 1"
    and b: "buffer_at params (current_buffer (state data)) = Inr b"
    and addr: "buffer b \<noteq> 0"
    and r: "process dec params m data = Some (Inr (finished, m', data'))"
  obtains d0 d1 data1 where
      "decode_loop dec params d0 data = Some (Inr (finished, d1, data1))"
    and "data' = (if finished then data1 else publish data1)"
  using assms
  by (auto simp: process_def Let_def split: option.splits sum.splits if_splits)

lemma process_ok:
  fixes dec :: "('d, 'a) Decoder"
  assumes sizes: "sizes_ok dec (granularity (parent data))"
    and ok: "backlog_ok (silence dec) data"
    and r: "process dec params m data = Some (Inr (finished, m', data'))"
  shows "backlog_ok (silence dec) data'"
    and "granularity (parent data') = granularity (parent data)"
    and "\<not> finished \<Longrightarrow>
           length (extra_storage data')
             = unat (decoded_samples_pending (state data'))
               + unat (decoded_passed (state data'))"
proof -
  have all: "backlog_ok (silence dec) data'
      \<and> granularity (parent data') = granularity (parent data)
      \<and> (\<not> finished \<longrightarrow> length (extra_storage data')
             = unat (decoded_samples_pending (state data'))
               + unat (decoded_passed (state data')))"
  proof (cases "current_buffer (state data) = - 1")
    case True
    with r ok show ?thesis
      by (simp add: process_def)
  next
    case cur: False
    from r cur obtain b where b: "buffer_at params (current_buffer (state data)) = Inr b"
      by (auto simp: process_def split: sum.splits)
    show ?thesis
    proof (cases "buffer b = 0")
      case True
      with r cur b ok show ?thesis
        by (simp add: process_def)
    next
      case addr: False
      show ?thesis
      proof (rule process_result [OF cur b addr r])
        fix d0 d1 data1
        assume loop: "decode_loop dec params d0 data = Some (Inr (finished, d1, data1))"
          and d': "data' = (if finished then data1 else publish data1)"
        note l = decode_loop_ok [OF loop sizes ok, unfolded loop_left_def]
        show ?thesis
        proof (cases finished)
          case True
          with l d' show ?thesis by simp
        next
          case False
          have g: "0 \<le> sint (granularity (parent data1))"
            using sizes l by (simp add: sizes_ok_def)
          from l False have ok1: "backlog_ok (silence dec) data1"
            and en: "\<not> sint (decoded_samples_pending (state data1))
                       < sint (granularity (parent data1))"
            by blast+
          note p = publish_ok [OF ok1 en g]
          from False d' p(3) p(6) l show ?thesis
            by (simp add: publish_fields)
        qed
      qed
    qed
  qed
  from all show "backlog_ok (silence dec) data'"
    and "granularity (parent data') = granularity (parent data)"
    and "\<not> finished \<Longrightarrow>
           length (extra_storage data')
             = unat (decoded_samples_pending (state data'))
               + unat (decoded_passed (state data'))"
    by simp_all
qed

lemma publishing_tick:
  fixes dec :: "('d, 'a) Decoder"
  assumes sizes: "sizes_ok dec (granularity (parent data))"
    and ok: "backlog_ok (silence dec) data"
    and r: "process dec params m data = Some (Inr (False, m', data'))"
  obtains d0 d1 data1 where
      "decode_loop dec params d0 data = Some (Inr (False, d1, data1))"
    and "data' = publish data1"
    and "backlog_ok (silence dec) data1"
    and "\<not> sint (decoded_samples_pending (state data1)) < sint (granularity (parent data1))"
    and "granularity (parent data1) = granularity (parent data)"
proof -
  from r have cur: "current_buffer (state data) \<noteq> - 1"
    by (auto simp: process_def)
  from r cur obtain b where b: "buffer_at params (current_buffer (state data)) = Inr b"
    by (auto simp: process_def split: sum.splits)
  from r cur b have addr: "buffer b \<noteq> 0"
    by (auto simp: process_def)
  show ?thesis
  proof (rule process_result [OF cur b addr r])
    fix d0 d1 data1
    assume loop: "decode_loop dec params d0 data = Some (Inr (False, d1, data1))"
      and d': "data' = (if False then data1 else publish data1)"
    note l = decode_loop_ok [OF loop sizes ok, unfolded loop_left_def]
    from l have "backlog_ok (silence dec) data1"
      and "\<not> sint (decoded_samples_pending (state data1)) < sint (granularity (parent data1))"
      and "granularity (parent data1) = granularity (parent data)"
      by blast+
    with loop d' show ?thesis
      by (intro that [of d0 d1 data1]) simp_all
  qed
qed

lemmas tick_defs = process_def publish_def finish_def fill_to_fit_granularity_def
  decode_loop.simps decode_frames.simps skip_empty.simps

lemma tick_run:
  "process (stub_decoder 0) single_params \<lparr>decoder = None, last_config = 0\<rparr> (initial_data 6)
     = Some (Inr (False, \<lparr>decoder = Some 4, last_config = 7\<rparr>,
          \<lparr> state = \<lparr> current_byte_position_in_buffer = 16, current_loop_count = 0,
                      current_buffer = 0, samples_generated_since_key_on = 8,
                      bytes_consumed_since_key_on = 16, samples_generated_total = 8,
                      total_bytes_consumed = 16, decoded_samples_pending = 2,
                      decoded_passed = 6 \<rparr>,
            extra_storage = [1, 1, 2, 2, 3, 3, 4, 4],
            callbacks = [],
            parent = \<lparr> voice_state = VOICE_STATE_OTHER 1, is_keyed_off = False,
                       granularity = 6, products0 = Some 0 \<rparr> \<rparr>))"
  by (simp add: tick_defs step_defs example_defs replicate_num)

lemma exhausted_run:
  "process (stub_decoder 0) single_params \<lparr>decoder = None, last_config = 0\<rparr> (initial_data 12)
     = Some (Inr (True, \<lparr>decoder = Some 4, last_config = 7\<rparr>,
          \<lparr> state = \<lparr> current_byte_position_in_buffer = 0, current_loop_count = 0,
                      current_buffer = - 1, samples_generated_since_key_on = 0,
                      bytes_consumed_since_key_on = 0, samples_generated_total = 8,
                      total_bytes_consumed = 16, decoded_samples_pending = 8,
                      decoded_passed = 0 \<rparr>,
            extra_storage = [1, 1, 2, 2, 3, 3, 4, 4, 0, 0, 0, 0],
            callbacks = [(SCE_NGS_AT9_END_OF_DATA, 0, 0)],
            parent = \<lparr> voice_state = VOICE_STATE_OTHER 1, is_keyed_off = False,
                       granularity = 12, products0 = Some 0 \<rparr> \<rparr>))"
  by (simp add: tick_defs step_defs example_defs replicate_num)

lemma tick_inputs:
  "sizes_ok (stub_decoder 0) (granularity (parent (initial_data g :: nat ModuleData)))
     \<longleftrightarrow> 0 \<le> sint g \<and> unat g + 4 \<le> 2 ^ 31"
  "backlog_ok (silence (stub_decoder 0)) (initial_data g :: nat ModuleData)"
  "current_buffer (state (initial_data g :: nat ModuleData)) \<noteq> - 1"
  "buffer_at single_params (current_buffer (state (initial_data g :: nat ModuleData)))
     = Inr (example_buffer 0x1000 16 0 (- 1))"
  "buffer (example_buffer 0x1000 16 0 (- 1)) \<noteq> 0"
  by (simp_all add: sizes_ok_def backlog_ok_def buffer_at_def example_defs)

lemma decode_loop_rounds:
  "loop_rounds dec params n d data = Some (dn, datan)
     \<Longrightarrow> decode_loop dec params d data = decode_loop dec params dn datan"
proof (induction n arbitrary: d data)
  case 0
  then show ?case
    by simp
next
  case (Suc n)
  from Suc.prems have lt:
    "sint (decoded_samples_pending (state data)) < sint (granularity (parent data))"
    by (simp split: if_splits)
  from Suc.prems lt obtain d1 data1 where
    step: "decode_more_data dec params d data = Inr (True, d1, data1)"
    and rest: "loop_rounds dec params n d1 data1 = Some (dn, datan)"
    by (auto split: sum.splits if_splits)
  have "decode_loop dec params d data = decode_loop dec params d1 data1"
    using lt step by (subst decode_loop.simps) simp
  with Suc.IH [OF rest] show ?case
    by simp
qed

lemma loop_rounds_ok:
  fixes dec :: "('d, 'a) Decoder"
  assumes "loop_rounds dec params n d data = Some (dn, datan)"
    and "sizes_ok dec (granularity (parent data))"
    and "backlog_ok (silence dec) data"
  shows "backlog_ok (silence dec) datan \<and> parent datan = parent data"
  using assms
proof (induction n arbitrary: d data)
  case 0
  then show ?case
    by simp
next
  case (Suc n)
  from Suc.prems(1) have lt:
    "sint (decoded_samples_pending (state data)) < sint (granularity (parent data))"
    by (simp split: if_splits)
  from Suc.prems(1) lt obtain d1 data1 where
    step: "decode_more_data dec params d data = Inr (True, d1, data1)"
    and rest: "loop_rounds dec params n d1 data1 = Some (dn, datan)"
    by (auto split: sum.splits if_splits)
  note s = decode_more_data_ok [OF Suc.prems(2,3) lt step]
  from Suc.prems(2) s(2) have "sizes_ok dec (granularity (parent data1))"
    by simp
  from Suc.IH [OF rest this s(1)] s(2) show ?case
    by simp
qed

text \<open>A tick that gets past the two early exits, in terms of its loop.\<close>

lemma process_loop:
  assumes cur: "current_buffer (state data) \<noteq> - 1"
    and b: "buffer_at params (current_buffer (state data)) = Inr b"
    and addr: "buffer b \<noteq> 0"
  shows "decode_loop dec params (tick_decoder dec params m) data
           = Some (Inr (finished, d1, data1))
         \<Longrightarrow> process dec params m data
               = Some (Inr (finished, \<lparr>decoder = Some d1, last_config = config_data params\<rparr>,
                            (if finished then data1 else publish data1)))"
  using cur b addr
  by (cases "decoder m") (auto simp: process_def tick_decoder_def Let_def)

lemma compact_returns:
  assumes "backlog_ok z data"
  shows "\<exists>data1. compact data = Inr data1"
  using assms by (auto simp: backlog_ok_def compact_def)

text \<open>The decode step reports that no data is left in the two cases the claim names.\<close>

lemma short_buffer_exhausts:
  assumes b: "buffer_at params (current_buffer (state data)) = Inr b"
    and short: "short_buffer dec d b data"
    and ok: "backlog_ok z data"
  shows "\<exists>data1. decode_more_data dec params d data = Inr (False, d, data1)"
proof -
  from compact_returns [OF ok] obtain data1 where c: "compact data = Inr data1"
    by auto
  have p1: "current_byte_position_in_buffer (state data1)
              = current_byte_position_in_buffer (state data)"
    by (rule compact_position [OF c])
  from short have "decode_superframe dec b d data1 = Inr (False, d, data1)"
    by (simp add: short_buffer_def decode_superframe_def Let_def p1)
  with b c short p1 show ?thesis
    by (simp add: decode_more_data_def short_buffer_def not_le [symmetric])
qed

lemma terminal_buffer_exhausts:
  assumes b: "buffer_at params (current_buffer (state data)) = Inr b"
    and tb: "terminal_buffer b data"
    and ok: "backlog_ok z data"
  shows "\<exists>data1. decode_more_data dec params d data = Inr (False, d, data1)"
proof -
  from compact_returns [OF ok] obtain data1 where c: "compact data = Inr data1"
    by auto
  have p1: "current_byte_position_in_buffer (state data1)
              = current_byte_position_in_buffer (state data)"
    by (rule compact_position [OF c])
  have l1: "current_loop_count (state data1) = current_loop_count (state data)"
    by (subst compact_fields(3) [OF c]) simp
  from tb l1 have "\<exists>data2. switch_buffer params b data1 = Inr data2
      \<and> current_buffer (state data2) = - 1"
    by (simp add: terminal_buffer_def switch_buffer_def Let_def)
  then obtain data2 where s: "switch_buffer params b data1 = Inr data2"
    and t: "current_buffer (state data2) = - 1"
    by auto
  from t have "\<exists>data3. find_data params data2 = Inr (False, data3)"
    by (simp add: find_data_def Let_def)
  with b c tb p1 s show ?thesis
    by (auto simp: decode_more_data_def terminal_buffer_def)
qed

text \<open>What every tick that returns past the two early exits has published.\<close>

lemma returned_tick:
  fixes dec :: "('d, 'a) Decoder"
  assumes sizes: "sizes_ok dec (granularity (parent data))"
    and ok: "backlog_ok (silence dec) data"
    and cur: "current_buffer (state data) \<noteq> - 1"
    and b: "buffer_at params (current_buffer (state data)) = Inr b"
    and addr: "buffer b \<noteq> 0"
    and r: "process dec params m data = Some (Inr (finished, m', data'))"
  shows "length (published data') = unat (granularity (parent data))"
proof (rule process_result [OF cur b addr r])
  fix d0 d1 data1
  assume loop: "decode_loop dec params d0 data = Some (Inr (finished, d1, data1))"
    and d': "data' = (if finished then data1 else publish data1)"
  note l = decode_loop_ok [OF loop sizes ok, unfolded loop_left_def]
  show ?thesis
  proof (cases finished)
    case True
    with l d' have same: "data' = data1"
      and pr: "products0 (parent data1) = Some 0"
      and gr: "granularity (parent data1) = granularity (parent data)"
      and len: "length (extra_storage data1) = unat (granularity (parent data))"
      by simp_all
    show ?thesis
      unfolding same using pr gr len by (simp add: published_def)
  next
    case False
    have g: "0 \<le> sint (granularity (parent data1))"
      using sizes l by (simp add: sizes_ok_def)
    from l False have ok1: "backlog_ok (silence dec) data1"
      and en: "\<not> sint (decoded_samples_pending (state data1))
                 < sint (granularity (parent data1))"
      and gr: "granularity (parent data1) = granularity (parent data)"
      by blast+
    note p = publish_ok [OF ok1 en g, unfolded gr]
    from False d' p(5) show ?thesis
      by simp
  qed
qed

lemma data_runs_out:
  assumes "buffer_at params (current_buffer (state data)) = Inr b
           \<and> (terminal_buffer b data \<or> short_buffer dec d b data)"
    and "backlog_ok z data"
  shows "\<exists>data1. decode_more_data dec params d data = Inr (False, d, data1)"
  using assms terminal_buffer_exhausts [of params data b z dec d]
    short_buffer_exhausts [of params data b dec d z]
  by blast

text \<open>A tick whose loop is left with enough sample-frames pending.\<close>

lemma enough_tick:
  fixes dec :: "('d, 'a) Decoder"
  assumes sizes: "sizes_ok dec (granularity (parent data))"
    and ok: "backlog_ok (silence dec) data"
    and cur: "current_buffer (state data) \<noteq> - 1"
    and b: "buffer_at params (current_buffer (state data)) = Inr b"
    and addr: "buffer b \<noteq> 0"
    and rounds: "loop_rounds dec params n (tick_decoder dec params m) data = Some (dn, datan)"
    and en: "\<not> sint (decoded_samples_pending (state datan)) < sint (granularity (parent data))"
  shows "process dec params m data
           = Some (Inr (False, \<lparr>decoder = Some dn, last_config = config_data params\<rparr>,
                        publish datan))"
    and "published (publish datan)
           = take (unat (granularity (parent data)))
               (drop (unat (decoded_passed (state datan))) (extra_storage datan))"
    and "length (published (publish datan)) = unat (granularity (parent data))"
    and "decoded_samples_pending (state (publish datan))
           = (if decoded_samples_pending (state datan) < granularity (parent data) then 0
              else decoded_samples_pending (state datan) - granularity (parent data))"
    and "unat (decoded_samples_pending (state (publish datan)))
           = unat (decoded_samples_pending (state datan)) - unat (granularity (parent data))"
    and "decoded_passed (state (publish datan))
           = decoded_passed (state datan) + granularity (parent data)"
proof -
  from loop_rounds_ok [OF rounds sizes ok] have okn: "backlog_ok (silence dec) datan"
    and par: "parent datan = parent data"
    by simp_all
  have g: "0 \<le> sint (granularity (parent datan))"
    using sizes par by (simp add: sizes_ok_def)
  have en': "\<not> sint (decoded_samples_pending (state datan)) < sint (granularity (parent datan))"
    using en par by simp
  have "decode_loop dec params dn datan = Some (Inr (False, dn, datan))"
    using en' by (subst decode_loop.simps) simp
  then have "decode_loop dec params (tick_decoder dec params m) data
               = Some (Inr (False, dn, datan))"
    using decode_loop_rounds [OF rounds] by simp
  from process_loop [OF cur b addr this]
  show "process dec params m data
           = Some (Inr (False, \<lparr>decoder = Some dn, last_config = config_data params\<rparr>,
                        publish datan))"
    by simp
  note p = publish_ok [OF okn en' g, unfolded par]
  show "published (publish datan)
           = take (unat (granularity (parent data)))
               (drop (unat (decoded_passed (state datan))) (extra_storage datan))"
    by (rule p(4))
  show "length (published (publish datan)) = unat (granularity (parent data))"
    by (rule p(5))
  show "unat (decoded_samples_pending (state (publish datan)))
           = unat (decoded_samples_pending (state datan)) - unat (granularity (parent data))"
    by (rule p(2))
  show "decoded_samples_pending (state (publish datan))
           = (if decoded_samples_pending (state datan) < granularity (parent data) then 0
              else decoded_samples_pending (state datan) - granularity (parent data))"
    by (simp add: publish_fields par)
  show "decoded_passed (state (publish datan))
           = decoded_passed (state datan) + granularity (parent data)"
    by (simp add: publish_fields par)
qed

text \<open>A tick whose loop is left by a decode step that reports no data.\<close>

lemma out_of_data_tick:
  fixes dec :: "('d, 'a) Decoder"
  assumes sizes: "sizes_ok dec (granularity (parent data))"
    and ok: "backlog_ok (silence dec) data"
    and cur: "current_buffer (state data) \<noteq> - 1"
    and b: "buffer_at params (current_buffer (state data)) = Inr b"
    and addr: "buffer b \<noteq> 0"
    and rounds: "loop_rounds dec params n (tick_decoder dec params m) data = Some (dn, datan)"
    and lt: "sint (decoded_samples_pending (state datan)) < sint (granularity (parent data))"
    and step: "decode_more_data dec params dn datan = Inr (False, d1, data1)"
  shows "process dec params m data
           = Some (Inr (True, \<lparr>decoder = Some d1, last_config = config_data params\<rparr>,
                        finish (silence dec) data1))"
    and "extra_storage (finish (silence dec) data1)
           = extra_storage data1
             @ replicate (unat (granularity (parent data)) - length (extra_storage data1))
                 (silence dec)"
    and "length (extra_storage (finish (silence dec) data1)) = unat (granularity (parent data))"
    and "drop (unat (decoded_samples_pending (state datan)))
              (extra_storage (finish (silence dec) data1))
           = replicate (unat (granularity (parent data))
                         - unat (decoded_samples_pending (state datan))) (silence dec)"
    and "published (finish (silence dec) data1) = extra_storage (finish (silence dec) data1)"
    and "samples_generated_since_key_on (state (finish (silence dec) data1)) = 0"
    and "bytes_consumed_since_key_on (state (finish (silence dec) data1)) = 0"
proof -
  let ?z = "silence dec"
  from loop_rounds_ok [OF rounds sizes ok] have okn: "backlog_ok ?z datan"
    and par: "parent datan = parent data"
    by simp_all
  have sizesn: "sizes_ok dec (granularity (parent datan))"
    using sizes par by simp
  have lt': "sint (decoded_samples_pending (state datan)) < sint (granularity (parent datan))"
    using lt par by simp
  note s = decode_more_data_ok [OF sizesn okn lt' step]
  have par1: "parent data1 = parent data"
    using s(2) par by simp
  have pend: "decoded_samples_pending (state data1) = decoded_samples_pending (state datan)"
    using s(4) by simp
  have g1: "0 \<le> sint (granularity (parent data1))"
    using sizes par1 by (simp add: sizes_ok_def)
  have lt1: "sint (decoded_samples_pending (state data1)) < sint (granularity (parent data1))"
    using lt pend par1 by simp
  note f = finish_padded [OF s(1) s(3) lt1 g1, unfolded par1 pend]
  have "decode_loop dec params dn datan = Some (Inr (True, d1, finish ?z data1))"
    using lt' step by (subst decode_loop.simps) simp
  then have "decode_loop dec params (tick_decoder dec params m) data
               = Some (Inr (True, d1, finish ?z data1))"
    using decode_loop_rounds [OF rounds] by simp
  from process_loop [OF cur b addr this]
  show "process dec params m data
           = Some (Inr (True, \<lparr>decoder = Some d1, last_config = config_data params\<rparr>,
                        finish ?z data1))"
    by simp
  show "extra_storage (finish ?z data1)
           = extra_storage data1
             @ replicate (unat (granularity (parent data)) - length (extra_storage data1)) ?z"
    using nat_sint_granularity [OF g1] by (simp add: finish_fields par1)
  show len: "length (extra_storage (finish ?z data1)) = unat (granularity (parent data))"
    by (rule f(2))
  show "drop (unat (decoded_samples_pending (state datan))) (extra_storage (finish ?z data1))
           = replicate (unat (granularity (parent data))
                         - unat (decoded_samples_pending (state datan))) ?z"
    by (rule f(3))
  show "published (finish ?z data1) = extra_storage (finish ?z data1)"
    using len by (simp add: published_def finish_fields(1) par1)
  show "samples_generated_since_key_on (state (finish ?z data1)) = 0"
    and "bytes_consumed_since_key_on (state (finish ?z data1)) = 0"
    by (simp_all add: finish_fields)
qed

text \<open>
  C5. A tick that gets past the two early exits (the current buffer index is not
  terminal and the buffer's address is set), from a state of the voice that ticks
  leave behind (\<open>backlog_ok\<close>; the next theorem shows that every reachable state
  is one) and with sizes in range, whose loop has made \<open>n\<close> rounds that each
  decoded more data. The tick returns in both cases of the claim.

  When \<open>granularity\<close> sample-frames or more are pending then, the tick returns at
  once and reports more work: the product is the slice of \<open>granularity\<close>
  sample-frames from the consumption cursor on, the pending count is lowered by
  \<open>granularity\<close> (the floor at zero is never reached) and the cursor moves on by
  \<open>granularity\<close>.

  When fewer are pending and the data has run out, the decode step reports it: it
  does so on a used-up buffer whose loops are played and which no buffer follows,
  and on a buffer with less than a superframe left. Whenever the step reports it,
  the tick returns and reports completion, the backlog is what the step left with
  silence behind it up to exactly \<open>granularity\<close> sample-frames, all of it silence
  behind the pending ones, the product is the whole backlog, and both since-key-on
  counters are zero.

  And whatever such a tick returns, what it has published is \<open>granularity\<close>
  sample-frames.
\<close>

theorem tick_publishes_granularity:
  fixes dec :: "('d, 'a) Decoder"
  assumes sizes: "sizes_ok dec (granularity (parent data))"
    and ok: "backlog_ok (silence dec) data"
    and cur: "current_buffer (state data) \<noteq> - 1"
    and b: "buffer_at params (current_buffer (state data)) = Inr b"
    and addr: "buffer b \<noteq> 0"
    and rounds: "loop_rounds dec params n (tick_decoder dec params m) data = Some (dn, datan)"
  shows "(\<not> sint (decoded_samples_pending (state datan)) < sint (granularity (parent data)) \<longrightarrow>
            process dec params m data
              = Some (Inr (False, \<lparr>decoder = Some dn, last_config = config_data params\<rparr>,
                           publish datan))
          \<and> published (publish datan)
              = take (unat (granularity (parent data)))
                  (drop (unat (decoded_passed (state datan))) (extra_storage datan))
          \<and> length (published (publish datan)) = unat (granularity (parent data))
          \<and> decoded_samples_pending (state (publish datan))
              = (if decoded_samples_pending (state datan) < granularity (parent data) then 0
                 else decoded_samples_pending (state datan) - granularity (parent data))
          \<and> unat (decoded_samples_pending (state (publish datan)))
              = unat (decoded_samples_pending (state datan)) - unat (granularity (parent data))
          \<and> decoded_passed (state (publish datan))
              = decoded_passed (state datan) + granularity (parent data))
       \<and> (sint (decoded_samples_pending (state datan)) < sint (granularity (parent data)) \<longrightarrow>
            (\<forall>bn. buffer_at params (current_buffer (state datan)) = Inr bn
                   \<and> (terminal_buffer bn datan \<or> short_buffer dec dn bn datan)
                 \<longrightarrow> (\<exists>data1. decode_more_data dec params dn datan = Inr (False, dn, data1)))
          \<and> (\<forall>d1 data1.
                decode_more_data dec params dn datan = Inr (False, d1, data1) \<longrightarrow>
                  process dec params m data
                    = Some (Inr (True, \<lparr>decoder = Some d1, last_config = config_data params\<rparr>,
                                 finish (silence dec) data1))
                \<and> extra_storage (finish (silence dec) data1)
                    = extra_storage data1
                      @ replicate (unat (granularity (parent data)) - length (extra_storage data1))
                          (silence dec)
                \<and> length (extra_storage (finish (silence dec) data1))
                    = unat (granularity (parent data))
                \<and> drop (unat (decoded_samples_pending (state datan)))
                       (extra_storage (finish (silence dec) data1))
                    = replicate (unat (granularity (parent data))
                                  - unat (decoded_samples_pending (state datan))) (silence dec)
                \<and> published (finish (silence dec) data1)
                    = extra_storage (finish (silence dec) data1)
                \<and> samples_generated_since_key_on (state (finish (silence dec) data1)) = 0
                \<and> bytes_consumed_since_key_on (state (finish (silence dec) data1)) = 0))
       \<and> (\<forall>finished m' data'.
            process dec params m data = Some (Inr (finished, m', data')) \<longrightarrow>
              length (published data') = unat (granularity (parent data)))"
proof (intro conjI impI allI, goal_cases)
  case 1
  from enough_tick(1) [OF sizes ok cur b addr rounds 1] show ?case .
next
  case 2
  from enough_tick(2) [OF sizes ok cur b addr rounds 2] show ?case .
next
  case 3
  from enough_tick(3) [OF sizes ok cur b addr rounds 3] show ?case .
next
  case 4
  from enough_tick(4) [OF sizes ok cur b addr rounds 4] show ?case .
next
  case 5
  from enough_tick(5) [OF sizes ok cur b addr rounds 5] show ?case .
next
  case 6
  from enough_tick(6) [OF sizes ok cur b addr rounds 6] show ?case .
next
  case (7 bn)
  from loop_rounds_ok [OF rounds sizes ok] have "backlog_ok (silence dec) datan"
    by simp
  from data_runs_out [OF 7(2) this] show ?case .
next
  case (8 d1 data1)
  from out_of_data_tick(1) [OF sizes ok cur b addr rounds 8] show ?case .
next
  case (9 d1 data1)
  from out_of_data_tick(2) [OF sizes ok cur b addr rounds 9] show ?case .
next
  case (10 d1 data1)
  from out_of_data_tick(3) [OF sizes ok cur b addr rounds 10] show ?case .
next
  case (11 d1 data1)
  from out_of_data_tick(4) [OF sizes ok cur b addr rounds 11] show ?case .
next
  case (12 d1 data1)
  from out_of_data_tick(5) [OF sizes ok cur b addr rounds 12] show ?case .
next
  case (13 d1 data1)
  from out_of_data_tick(6) [OF sizes ok cur b addr rounds 13] show ?case .
next
  case (14 d1 data1)
  from out_of_data_tick(7) [OF sizes ok cur b addr rounds 14] show ?case .
next
  case (15 finished m' data')
  from returned_tick [OF sizes ok cur b addr 15] show ?case .
qed

lemma two_rounds:
  "loop_rounds (stub_decoder 0) single_params (Suc (Suc 0))
     (tick_decoder (stub_decoder 0) single_params \<lparr>decoder = None, last_config = 0\<rparr>)
     (initial_data 6)
   = Some (4, decoded_voice 6)"
  "loop_rounds (stub_decoder 0) single_params (Suc (Suc 0))
     (tick_decoder (stub_decoder 0) single_params \<lparr>decoder = None, last_config = 0\<rparr>)
     (initial_data 12)
   = Some (4, decoded_voice 12)"
  by (simp_all add: tick_decoder_def decoded_voice_def step_defs example_defs
        decode_frames.simps replicate_num)

lemma after_two_rounds:
  "\<not> sint (decoded_samples_pending (state (decoded_voice 6)))
       < sint (granularity (parent (initial_data 6 :: nat ModuleData)))"
  "sint (decoded_samples_pending (state (decoded_voice 12)))
     < sint (granularity (parent (initial_data 12 :: nat ModuleData)))"
  "buffer_at single_params (current_buffer (state (decoded_voice 12)))
     = Inr (example_buffer 0x1000 16 0 (- 1))"
  "terminal_buffer (example_buffer 0x1000 16 0 (- 1)) (decoded_voice 12)"
  by (simp_all add: decoded_voice_def terminal_buffer_def buffer_at_def example_defs)

theorem tick_publishes_granularity_witness:
  "loop_rounds (stub_decoder 0) single_params (Suc (Suc 0))
     (tick_decoder (stub_decoder 0) single_params \<lparr>decoder = None, last_config = 0\<rparr>)
     (initial_data 6)
     = Some (4, decoded_voice 6)
   \<and> process (stub_decoder 0) single_params \<lparr>decoder = None, last_config = 0\<rparr>
       (initial_data 6)
     = Some (Inr (False, \<lparr>decoder = Some 4, last_config = config_data single_params\<rparr>,
                  publish (decoded_voice 6)))
   \<and> published (publish (decoded_voice 6))
     = take (unat (granularity (parent (initial_data 6 :: nat ModuleData))))
         (drop (unat (decoded_passed (state (decoded_voice 6))))
            (extra_storage (decoded_voice 6)))
   \<and> length (published (publish (decoded_voice 6)))
     = unat (granularity (parent (initial_data 6 :: nat ModuleData)))
   \<and> loop_rounds (stub_decoder 0) single_params (Suc (Suc 0))
       (tick_decoder (stub_decoder 0) single_params \<lparr>decoder = None, last_config = 0\<rparr>)
       (initial_data 12)
     = Some (4, decoded_voice 12)
   \<and> terminal_buffer (example_buffer 0x1000 16 0 (- 1)) (decoded_voice 12)
   \<and> (\<exists>data1.
         decode_more_data (stub_decoder 0) single_params 4 (decoded_voice 12)
           = Inr (False, 4, data1)
       \<and> process (stub_decoder 0) single_params \<lparr>decoder = None, last_config = 0\<rparr>
           (initial_data 12)
         = Some (Inr (True, \<lparr>decoder = Some 4, last_config = config_data single_params\<rparr>,
                      finish (silence (stub_decoder 0)) data1))
       \<and> length (extra_storage (finish (silence (stub_decoder 0)) data1))
         = unat (granularity (parent (initial_data 12 :: nat ModuleData)))
       \<and> published (finish (silence (stub_decoder 0)) data1)
         = extra_storage (finish (silence (stub_decoder 0)) data1))"
proof -
  have s6: "sizes_ok (stub_decoder 0) (granularity (parent (initial_data 6 :: nat ModuleData)))"
    and s12: "sizes_ok (stub_decoder 0) (granularity (parent (initial_data 12 :: nat ModuleData)))"
    unfolding tick_inputs(1) by simp_all
  note t6 = tick_publishes_granularity [OF s6 tick_inputs(2-5) two_rounds(1)]
  note t12 = tick_publishes_granularity [OF s12 tick_inputs(2-5) two_rounds(2)]
  from t6 after_two_rounds(1) have a:
    "process (stub_decoder 0) single_params \<lparr>decoder = None, last_config = 0\<rparr>
       (initial_data 6)
     = Some (Inr (False, \<lparr>decoder = Some 4, last_config = config_data single_params\<rparr>,
                  publish (decoded_voice 6)))
   \<and> published (publish (decoded_voice 6))
     = take (unat (granularity (parent (initial_data 6 :: nat ModuleData))))
         (drop (unat (decoded_passed (state (decoded_voice 6))))
            (extra_storage (decoded_voice 6)))
   \<and> length (published (publish (decoded_voice 6)))
     = unat (granularity (parent (initial_data 6 :: nat ModuleData)))"
    by blast
  from t12 after_two_rounds(2) after_two_rounds(3) after_two_rounds(4) obtain data1 where
    step: "decode_more_data (stub_decoder 0) single_params 4 (decoded_voice 12)
             = Inr (False, 4, data1)"
    by blast
  from t12 after_two_rounds(2) step have e:
    "process (stub_decoder 0) single_params \<lparr>decoder = None, last_config = 0\<rparr>
           (initial_data 12)
         = Some (Inr (True, \<lparr>decoder = Some 4, last_config = config_data single_params\<rparr>,
                      finish (silence (stub_decoder 0)) data1))
       \<and> length (extra_storage (finish (silence (stub_decoder 0)) data1))
         = unat (granularity (parent (initial_data 12 :: nat ModuleData)))
       \<and> published (finish (silence (stub_decoder 0)) data1)
         = extra_storage (finish (silence (stub_decoder 0)) data1)"
    by blast
  from a step e two_rounds after_two_rounds(4) show ?thesis
    by blast
qed

lemma reachable_ok:
  fixes dec :: "('d, 'a) Decoder"
  assumes reach: "reachable dec g m data" and sizes: "sizes_ok dec g"
  shows "backlog_ok (silence dec) data \<and> granularity (parent data) = g"
  using reach
proof (induction rule: reachable.induct)
  case fresh
  show ?case
    by (simp add: backlog_ok_def initial_data_def initial_state_def)
next
  case (tick m data params finished m' data')
  then have ok: "backlog_ok (silence dec) data" and gr: "granularity (parent data) = g"
    by simp_all
  from sizes gr have "sizes_ok dec (granularity (parent data))"
    by simp
  from process_ok(1,2) [OF this ok tick.hyps(2)] gr show ?case
    by simp
next
  case (change m data vs k previous)
  then show ?case
    by (auto simp: backlog_ok_def on_state_change_def)
qed

text \<open>
  C7, as the code has it. After any sequence of ticks and state changes, with sizes
  in range: either the backlog holds exactly the pending plus the passed
  sample-frames, or a tick has run out of data and filled it up, and then nothing
  has been passed, fewer than \<open>granularity\<close> sample-frames are pending and the
  backlog holds them followed by silence up to \<open>granularity\<close> sample-frames.
  From such a state, compaction drops exactly the passed sample-frames from the
  front of the backlog and sets the passed count to zero; a decode step that decodes
  a superframe adds its trimmed size to the pending count and leaves the backlog
  with the pending sample-frames and that many more; and a tick that reports more
  work leaves the loop with at least \<open>granularity\<close> sample-frames pending, moves
  \<open>granularity\<close> of them from pending to passed, and ends with a backlog of
  exactly the pending plus the passed sample-frames.
\<close>

theorem backlog_accounting:
  fixes dec :: "('d, 'a) Decoder"
  assumes sizes: "sizes_ok dec g" and reach: "reachable dec g m data"
  shows "(length (extra_storage data)
            = unat (decoded_samples_pending (state data)) + unat (decoded_passed (state data))
          \<or> decoded_passed (state data) = 0
            \<and> unat (decoded_samples_pending (state data)) < unat g
            \<and> length (extra_storage data) = unat g
            \<and> drop (unat (decoded_samples_pending (state data))) (extra_storage data)
                = replicate (unat g - unat (decoded_samples_pending (state data))) (silence dec))
       \<and> (\<forall>data1.
            compact data = Inr data1
            \<longrightarrow> extra_storage data1
                  = drop (unat (decoded_passed (state data))) (extra_storage data)
                \<and> decoded_passed (state data1) = 0
                \<and> decoded_samples_pending (state data1) = decoded_samples_pending (state data))
       \<and> (\<forall>params d b again d' data'.
            buffer_at params (current_buffer (state data)) = Inr b
            \<and> current_byte_position_in_buffer (state data) < bytes_count b
            \<and> get dec d AT9_SUPERFRAME_SIZE
                \<le> bytes_count b - current_byte_position_in_buffer (state data)
            \<and> decode_more_data dec params d data = Inr (again, d', data')
            \<longrightarrow> decoded_samples_pending (state data')
                  = decoded_samples_pending (state data)
                    + snd (trim_superframe b (current_byte_position_in_buffer (state data))
                             (get dec d AT9_SUPERFRAME_SIZE)
                             (bytes_count b - current_byte_position_in_buffer (state data))
                             (get dec d AT9_SAMPLE_PER_SUPERFRAME))
                \<and> length (extra_storage data')
                  = unat (decoded_samples_pending (state data))
                    + unat (snd (trim_superframe b
                                   (current_byte_position_in_buffer (state data))
                                   (get dec d AT9_SUPERFRAME_SIZE)
                                   (bytes_count b - current_byte_position_in_buffer (state data))
                                   (get dec d AT9_SAMPLE_PER_SUPERFRAME)))
                \<and> decoded_passed (state data') = 0)
       \<and> (\<forall>params m' data'.
            process dec params m data = Some (Inr (False, m', data'))
            \<longrightarrow> length (extra_storage data')
                  = unat (decoded_samples_pending (state data'))
                    + unat (decoded_passed (state data'))
                \<and> (\<exists>d0 d1 data1.
                      decode_loop dec params d0 data = Some (Inr (False, d1, data1))
                    \<and> extra_storage data' = extra_storage data1
                    \<and> unat g \<le> unat (decoded_samples_pending (state data1))
                    \<and> unat (decoded_samples_pending (state data'))
                        = unat (decoded_samples_pending (state data1)) - unat g
                    \<and> unat (decoded_passed (state data'))
                        = unat (decoded_passed (state data1)) + unat g))"
proof -
  from reachable_ok [OF reach sizes]
  have ok: "backlog_ok (silence dec) data" and gr: "granularity (parent data) = g"
    by simp_all
  from sizes gr have s: "sizes_ok dec (granularity (parent data))"
    by simp
  have inv: "length (extra_storage data)
            = unat (decoded_samples_pending (state data)) + unat (decoded_passed (state data))
          \<or> decoded_passed (state data) = 0
            \<and> unat (decoded_samples_pending (state data)) < unat g
            \<and> length (extra_storage data) = unat g
            \<and> drop (unat (decoded_samples_pending (state data))) (extra_storage data)
                = replicate (unat g - unat (decoded_samples_pending (state data))) (silence dec)"
    using ok gr by (auto simp: backlog_ok_def)
  have compaction: "extra_storage data1
                  = drop (unat (decoded_passed (state data))) (extra_storage data)
                \<and> decoded_passed (state data1) = 0
                \<and> decoded_samples_pending (state data1) = decoded_samples_pending (state data)"
    if c: "compact data = Inr data1" for data1
  proof -
    note c1 = compact_ok [OF ok c]
    have "extra_storage data1 = drop (unat (decoded_passed (state data))) (extra_storage data)"
      using c by (auto simp: compact_def split: if_splits)
    with c1(2,3) show ?thesis by simp
  qed
  have step: "decoded_samples_pending (state data')
                  = decoded_samples_pending (state data)
                    + snd (trim_superframe b (current_byte_position_in_buffer (state data))
                             (get dec d AT9_SUPERFRAME_SIZE)
                             (bytes_count b - current_byte_position_in_buffer (state data))
                             (get dec d AT9_SAMPLE_PER_SUPERFRAME))
                \<and> length (extra_storage data')
                  = unat (decoded_samples_pending (state data))
                    + unat (snd (trim_superframe b
                                   (current_byte_position_in_buffer (state data))
                                   (get dec d AT9_SUPERFRAME_SIZE)
                                   (bytes_count b - current_byte_position_in_buffer (state data))
                                   (get dec d AT9_SAMPLE_PER_SUPERFRAME)))
                \<and> decoded_passed (state data') = 0"
    if b: "buffer_at params (current_buffer (state data)) = Inr b"
      and left: "current_byte_position_in_buffer (state data) < bytes_count b"
      and enough: "get dec d AT9_SUPERFRAME_SIZE
                     \<le> bytes_count b - current_byte_position_in_buffer (state data)"
      and r: "decode_more_data dec params d data = Inr (again, d', data')"
    for params d b again d' data'
  proof (rule decode_step_result [OF b left enough r])
    fix data1 err dx position' scratch' off kept
    assume c: "compact data = Inr data1"
      and t: "trim_superframe b (current_byte_position_in_buffer (state data))
          (get dec d AT9_SUPERFRAME_SIZE)
          (bytes_count b - current_byte_position_in_buffer (state data))
          (get dec d AT9_SAMPLE_PER_SUPERFRAME) = (off, kept)"
      and fit: "unat off + unat kept \<le> unat (get dec d AT9_SAMPLE_PER_SUPERFRAME)"
      and len: "length scratch' = unat (get dec d AT9_SAMPLE_PER_SUPERFRAME)"
      and storage: "extra_storage data'
        = write_at (unat (decoded_samples_pending (state data)))
            (take (unat kept) (drop (unat off) scratch'))
            (resize (unat (decoded_samples_pending (state data)) + unat kept) (silence dec)
               (extra_storage data1))"
      and st: "state data'
        = (state data1)\<lparr>
             current_byte_position_in_buffer := position',
             samples_generated_since_key_on :=
               samples_generated_since_key_on (state data) + kept,
             samples_generated_total := samples_generated_total (state data) + kept,
             bytes_consumed_since_key_on :=
               bytes_consumed_since_key_on (state data) + get dec d AT9_SUPERFRAME_SIZE,
             total_bytes_consumed :=
               total_bytes_consumed (state data) + get dec d AT9_SUPERFRAME_SIZE,
             decoded_samples_pending := decoded_samples_pending (state data) + kept\<rparr>"
    have "length (take (unat kept) (drop (unat off) scratch')) = unat kept"
      using fit len by simp
    note a = appended [OF this]
    have "decoded_passed (state data') = 0"
      unfolding st using compact_ok(2) [OF ok c] by simp
    then show ?thesis
      unfolding t storage st using a(1) by simp
  qed
  have tick: "length (extra_storage data')
                  = unat (decoded_samples_pending (state data'))
                    + unat (decoded_passed (state data'))
                \<and> (\<exists>d0 d1 data1.
                      decode_loop dec params d0 data = Some (Inr (False, d1, data1))
                    \<and> extra_storage data' = extra_storage data1
                    \<and> unat g \<le> unat (decoded_samples_pending (state data1))
                    \<and> unat (decoded_samples_pending (state data'))
                        = unat (decoded_samples_pending (state data1)) - unat g
                    \<and> unat (decoded_passed (state data'))
                        = unat (decoded_passed (state data1)) + unat g)"
    if r: "process dec params m data = Some (Inr (False, m', data'))" for params m' data'
  proof (rule publishing_tick [OF s ok r])
    fix d0 d1 data1
    assume loop: "decode_loop dec params d0 data = Some (Inr (False, d1, data1))"
      and d': "data' = publish data1"
      and ok1: "backlog_ok (silence dec) data1"
      and en: "\<not> sint (decoded_samples_pending (state data1))
                 < sint (granularity (parent data1))"
      and g1: "granularity (parent data1) = granularity (parent data)"
    have "0 \<le> sint (granularity (parent data1))"
      using s g1 by (simp add: sizes_ok_def)
    note p = publish_ok [OF ok1 en this, unfolded g1 gr]
    have "decode_loop dec params d0 data = Some (Inr (False, d1, data1))
        \<and> extra_storage data' = extra_storage data1
        \<and> unat g \<le> unat (decoded_samples_pending (state data1))
        \<and> unat (decoded_samples_pending (state data'))
            = unat (decoded_samples_pending (state data1)) - unat g
        \<and> unat (decoded_passed (state data'))
            = unat (decoded_passed (state data1)) + unat g"
      unfolding d' using loop p(1,2,7) by (simp add: publish_fields)
    then have "\<exists>d0 d1 data1.
          decode_loop dec params d0 data = Some (Inr (False, d1, data1))
        \<and> extra_storage data' = extra_storage data1
        \<and> unat g \<le> unat (decoded_samples_pending (state data1))
        \<and> unat (decoded_samples_pending (state data'))
            = unat (decoded_samples_pending (state data1)) - unat g
        \<and> unat (decoded_passed (state data'))
            = unat (decoded_passed (state data1)) + unat g"
      by blast
    with p(3) d' show ?thesis
      by simp
  qed
  from inv compaction step tick show ?thesis
    by blast
qed

theorem backlog_accounting_witness:
  "sizes_ok (stub_decoder 0) 6
   \<and> (\<exists>m data.
         reachable (stub_decoder 0) 6 m data
       \<and> decoded_passed (state data) = 6
       \<and> length (extra_storage data)
           = unat (decoded_samples_pending (state data)) + unat (decoded_passed (state data)))"
proof -
  let ?data = "\<lparr> state = \<lparr> current_byte_position_in_buffer = 16, current_loop_count = 0,
                      current_buffer = 0, samples_generated_since_key_on = 8,
                      bytes_consumed_since_key_on = 16, samples_generated_total = 8,
                      total_bytes_consumed = 16, decoded_samples_pending = 2,
                      decoded_passed = 6 \<rparr>,
            extra_storage = [1, 1, 2, 2, 3, 3, 4, 4 :: nat],
            callbacks = [],
            parent = \<lparr> voice_state = VOICE_STATE_OTHER 1, is_keyed_off = False,
                       granularity = 6, products0 = Some 0 \<rparr> \<rparr>"
  have s: "sizes_ok (stub_decoder 0) 6"
    by (simp add: sizes_ok_def stub_decoder_def)
  have r: "reachable (stub_decoder 0) 6 \<lparr>decoder = Some 4, last_config = 7\<rparr> ?data"
    by (rule reachable.tick [OF reachable.fresh tick_run])
  have p: "decoded_passed (state ?data) = 6"
    by simp
  from backlog_accounting [OF s r] p
  have "length (extra_storage ?data)
           = unat (decoded_samples_pending (state ?data)) + unat (decoded_passed (state ?data))"
    by simp
  with s r p show ?thesis
    by blast
qed

text \<open>
  C7 as stated, an equality after any sequence of ticks, fails after a tick that
  runs out of data. One tick with granularity 12 on a fresh voice whose only buffer
  holds two superframes of four samples: 8 sample-frames are decoded and pending,
  none passed, and the backlog is filled up with silence to 12 sample-frames.
\<close>

theorem exhausted_tick_pads_backlog:
  "(case process (stub_decoder 0) single_params \<lparr>decoder = None, last_config = 0\<rparr>
           (initial_data 12) of
      Some (Inr (finished, m', data')) \<Rightarrow>
        finished
      \<and> length (extra_storage data') = 12
      \<and> unat (decoded_samples_pending (state data')) + unat (decoded_passed (state data')) = 8
    | _ \<Rightarrow> False)"
  unfolding exhausted_run by simp

end
